theory Spec2Isabelle
  imports Main "HOL-Library.AList" "HOL-Library.Word"
begin

section \<open>Objects, dynamically typed values, errors\<close>

text \<open>
  \<^verbatim>\<open>client.Object\<close> (package client) is \<^verbatim>\<open>runtime.Object\<close> plus \<^verbatim>\<open>metav1.Object\<close>: a
  value with an identity (namespace and name), a resource version and a payload; the
  fields are named after the getters of \<^verbatim>\<open>metav1.Object\<close>.
  The type parameter \<^verbatim>\<open>T\<close> is a pointer type: both \<^verbatim>\<open>NewClient\<close> and \<^verbatim>\<open>Informer\<close>
  evaluate \<^verbatim>\<open>reflect.TypeOf(t).Elem()\<close> on it. Its zero value is the nil pointer.
\<close>

record Object =
  GetNamespace :: string
  GetName :: string
  GetResourceVersion :: string
  Payload :: string

datatype 'a ptr = NilPtr | Ptr 'a

type_synonym T = "Object ptr"

definition zeroT :: T where
  "zeroT = NilPtr"

text \<open>
  A value of Go's \<^verbatim>\<open>interface{}\<close>: the nil interface, a value whose dynamic type is
  \<^verbatim>\<open>T\<close> (a nil pointer of type \<^verbatim>\<open>T\<close> included), or a value of another dynamic type.
\<close>

datatype any = NilInterface | OfT T | OfOther string

datatype panic = InterfaceConversion | NilDereference

text \<open>Go's \<^verbatim>\<open>error\<close> values: the classes of transport errors the spec names (6), the
  error of a store for a value without a key, and a decoding error.\<close>

datatype error =
    ErrNotFound | ErrConflict | ErrForbidden | ErrTimeout | ErrStaleResourceVersion
  | ErrOther string | ErrKey | ErrDecode

text \<open>The type assertion \<^verbatim>\<open>i.(T)\<close>: it panics on the nil interface and on any other
  dynamic type.\<close>

fun assertT :: "any \<Rightarrow> panic + T" where
  "assertT (OfT t) = Inr t"
| "assertT NilInterface = Inl InterfaceConversion"
| "assertT (OfOther d) = Inl InterfaceConversion"

text \<open>\<^verbatim>\<open>for _, item := range items { list = append(list, item.(T)) }\<close>: the first failing
  assertion panics.\<close>

fun assertT_all :: "any list \<Rightarrow> panic + T list" where
  "assertT_all [] = Inr []"
| "assertT_all (item # items) =
     (case assertT item of
        Inl p \<Rightarrow> Inl p
      | Inr t \<Rightarrow> (case assertT_all items of Inl p \<Rightarrow> Inl p | Inr ts \<Rightarrow> Inr (t # ts)))"

section \<open>The store (cache/informer.go)\<close>

text \<open>
  \<^verbatim>\<open>cache.Store\<close> is an interface of k8s.io/client-go; the struct \<^verbatim>\<open>store[T]\<close> embeds it
  and calls the methods below. An implementation is a record of operations on its state
  \<open>'s\<close>; a Go \<^verbatim>\<open>error\<close> result is \<open>None\<close> for nil.
\<close>

record 's cache_Store =
  cache_Add :: "any \<Rightarrow> 's \<Rightarrow> error option \<times> 's"
  cache_Update :: "any \<Rightarrow> 's \<Rightarrow> error option \<times> 's"
  cache_Delete :: "any \<Rightarrow> 's \<Rightarrow> error option \<times> 's"
  cache_List :: "'s \<Rightarrow> any list"
  cache_ListKeys :: "'s \<Rightarrow> string list"
  cache_Get :: "any \<Rightarrow> 's \<Rightarrow> any \<times> bool \<times> error option"
  cache_GetByKey :: "string \<Rightarrow> 's \<Rightarrow> any \<times> bool \<times> error option"
  cache_Replace :: "any list \<Rightarrow> string \<Rightarrow> 's \<Rightarrow> error option \<times> 's"
  cache_Resync :: "'s \<Rightarrow> error option \<times> 's"

text \<open>\<^verbatim>\<open>type store[T client.Object] struct { cache.Store }\<close>\<close>

record 's store =
  Store :: "'s cache_Store"

definition store_Add :: "'s store \<Rightarrow> T \<Rightarrow> 's \<Rightarrow> error option \<times> 's" where
  "store_Add s obj = cache_Add (Store s) (OfT obj)"

definition store_Update :: "'s store \<Rightarrow> T \<Rightarrow> 's \<Rightarrow> error option \<times> 's" where
  "store_Update s obj = cache_Update (Store s) (OfT obj)"

definition store_Delete :: "'s store \<Rightarrow> T \<Rightarrow> 's \<Rightarrow> error option \<times> 's" where
  "store_Delete s obj = cache_Delete (Store s) (OfT obj)"

definition store_List :: "'s store \<Rightarrow> 's \<Rightarrow> panic + T list" where
  "store_List s st = (let items = cache_List (Store s) st in assertT_all items)"

text \<open>\<^verbatim>\<open>ListKeys\<close> and \<^verbatim>\<open>Resync\<close> are promoted from the embedded interface.\<close>

definition store_ListKeys :: "'s store \<Rightarrow> 's \<Rightarrow> string list" where
  "store_ListKeys s st = cache_ListKeys (Store s) st"

definition store_Resync :: "'s store \<Rightarrow> 's \<Rightarrow> error option \<times> 's" where
  "store_Resync s st = cache_Resync (Store s) st"

text \<open>
  \<^verbatim>\<open>i, exists, err := s.Store.Get(obj); if i != nil { item = i.(T) }; return item, exists, err\<close>:
  the named result \<^verbatim>\<open>item\<close> starts as the zero value of \<^verbatim>\<open>T\<close>.
\<close>

definition store_Get :: "'s store \<Rightarrow> T \<Rightarrow> 's \<Rightarrow> panic + (T \<times> bool \<times> error option)" where
  "store_Get s obj st =
     (case cache_Get (Store s) (OfT obj) st of
        (i, exists, err) \<Rightarrow>
          if i \<noteq> NilInterface
          then (case assertT i of Inl p \<Rightarrow> Inl p | Inr item \<Rightarrow> Inr (item, exists, err))
          else Inr (zeroT, exists, err))"

definition store_GetByKey ::
  "'s store \<Rightarrow> string \<Rightarrow> 's \<Rightarrow> panic + (T \<times> bool \<times> error option)" where
  "store_GetByKey s key st =
     (case cache_GetByKey (Store s) key st of
        (i, exists, err) \<Rightarrow>
          if i \<noteq> NilInterface
          then (case assertT i of Inl p \<Rightarrow> Inl p | Inr item \<Rightarrow> Inr (item, exists, err))
          else Inr (zeroT, exists, err))"

text \<open>\<^verbatim>\<open>in := make([]any, 0, len(items)); for ... { in = append(in, item) }\<close>\<close>

definition store_Replace :: "'s store \<Rightarrow> T list \<Rightarrow> string \<Rightarrow> 's \<Rightarrow> error option \<times> 's" where
  "store_Replace s items resourceVersion st =
     (let in_items = map OfT items in cache_Replace (Store s) in_items resourceVersion st)"

subsection \<open>The store behind the wrapper\<close>

text \<open>
  Modelled from the spec: the implementation of \<^verbatim>\<open>cache.Store\<close> that
  \<^verbatim>\<open>cache.NewInformer\<close> returns is code of k8s.io/client-go and is not among the
  sources. The spec (3, 4.4) describes it: a keyed mapping with at most one entry per key,
  the key derived from the object (namespace/name, or the name alone for cluster-scoped
  kinds); Add and Update upsert; Delete removes and a missing key is a no-op; Get reports
  (object, found); Replace is a full replacement; the mutations never fail for well-formed
  keys. The state is an association list, so that List has an order for a given state.
  A value from which no key can be derived (a nil pointer, a value that is no object)
  is refused with an error and the state is kept.
\<close>

type_synonym store_state = "(string \<times> any) list"

definition objKey :: "Object \<Rightarrow> string" where
  "objKey obj =
     (if GetNamespace obj = [] then GetName obj else GetNamespace obj @ ''/'' @ GetName obj)"

fun keyFunc :: "any \<Rightarrow> error + string" where
  "keyFunc (OfT (Ptr obj)) = Inr (objKey obj)"
| "keyFunc (OfT NilPtr) = Inl ErrKey"
| "keyFunc NilInterface = Inl ErrKey"
| "keyFunc (OfOther d) = Inl ErrKey"

fun keyFunc_all :: "any list \<Rightarrow> error + string list" where
  "keyFunc_all [] = Inr []"
| "keyFunc_all (x # xs) =
     (case keyFunc x of
        Inl e \<Rightarrow> Inl e
      | Inr k \<Rightarrow> (case keyFunc_all xs of Inl e \<Rightarrow> Inl e | Inr ks \<Rightarrow> Inr (k # ks)))"

definition spec_Add :: "any \<Rightarrow> store_state \<Rightarrow> error option \<times> store_state" where
  "spec_Add x st =
     (case keyFunc x of Inl e \<Rightarrow> (Some e, st) | Inr k \<Rightarrow> (None, AList.update k x st))"

definition spec_Update :: "any \<Rightarrow> store_state \<Rightarrow> error option \<times> store_state" where
  "spec_Update x st =
     (case keyFunc x of Inl e \<Rightarrow> (Some e, st) | Inr k \<Rightarrow> (None, AList.update k x st))"

definition spec_Delete :: "any \<Rightarrow> store_state \<Rightarrow> error option \<times> store_state" where
  "spec_Delete x st =
     (case keyFunc x of Inl e \<Rightarrow> (Some e, st) | Inr k \<Rightarrow> (None, AList.delete k st))"

definition spec_List :: "store_state \<Rightarrow> any list" where
  "spec_List st = map snd st"

definition spec_ListKeys :: "store_state \<Rightarrow> string list" where
  "spec_ListKeys st = map fst st"

definition spec_GetByKey :: "string \<Rightarrow> store_state \<Rightarrow> any \<times> bool \<times> error option" where
  "spec_GetByKey key st =
     (case map_of st key of
        None \<Rightarrow> (NilInterface, False, None)
      | Some item \<Rightarrow> (item, True, None))"

definition spec_Get :: "any \<Rightarrow> store_state \<Rightarrow> any \<times> bool \<times> error option" where
  "spec_Get x st =
     (case keyFunc x of
        Inl e \<Rightarrow> (NilInterface, False, Some e)
      | Inr k \<Rightarrow> spec_GetByKey k st)"

fun upsert_all :: "(string \<times> any) list \<Rightarrow> store_state \<Rightarrow> store_state" where
  "upsert_all [] st = st"
| "upsert_all ((k, x) # kxs) st = upsert_all kxs (AList.update k x st)"

definition spec_Replace ::
  "any list \<Rightarrow> string \<Rightarrow> store_state \<Rightarrow> error option \<times> store_state" where
  "spec_Replace xs resourceVersion st =
     (case keyFunc_all xs of
        Inl e \<Rightarrow> (Some e, st)
      | Inr ks \<Rightarrow> (None, upsert_all (zip ks xs) []))"

definition spec_Resync :: "store_state \<Rightarrow> error option \<times> store_state" where
  "spec_Resync st = (None, st)"

definition spec_Store :: "store_state cache_Store" where
  "spec_Store =
     \<lparr> cache_Add = spec_Add, cache_Update = spec_Update, cache_Delete = spec_Delete,
       cache_List = spec_List, cache_ListKeys = spec_ListKeys,
       cache_Get = spec_Get, cache_GetByKey = spec_GetByKey,
       cache_Replace = spec_Replace, cache_Resync = spec_Resync \<rparr>"

text \<open>\<^verbatim>\<open>store[T]{s}\<close> for the store \<^verbatim>\<open>s\<close> that \<^verbatim>\<open>cache.NewInformer\<close> created.\<close>

definition informer_store :: "store_state store" where
  "informer_store = \<lparr> Store = spec_Store \<rparr>"

section \<open>The typed client (package client)\<close>

subsection \<open>Options, requests and the transport\<close>

text \<open>
  \<^verbatim>\<open>metav1.ListOptions\<close> and the other option structs are types of k8s.io/apimachinery.
  The client reads \<^verbatim>\<open>TimeoutSeconds\<close> (a \<^verbatim>\<open>*int64\<close>) and writes \<^verbatim>\<open>Watch\<close>; the other
  fields are only passed on. \<^verbatim>\<open>time.Duration\<close> is an \<^verbatim>\<open>int64\<close> of nanoseconds, so
  \<^verbatim>\<open>time.Duration(*opts.TimeoutSeconds) * time.Second\<close> wraps around.
\<close>

type_synonym int64 = "64 word"

type_synonym Duration = "64 word"

definition Second :: Duration where
  "Second = 1000000000"

record ListOptions =
  LabelSelector :: string
  FieldSelector :: string
  Watch :: bool
  ResourceVersion :: string
  TimeoutSeconds :: "int64 option"
  Limit :: int64

record GetOptions =
  get_ResourceVersion :: string

record CreateOptions =
  create_DryRun :: "string list"
  create_FieldManager :: string

record UpdateOptions =
  update_DryRun :: "string list"
  update_FieldManager :: string

record DeleteOptions =
  GracePeriodSeconds :: "int64 option"
  delete_DryRun :: "string list"

record PatchOptions =
  patch_DryRun :: "string list"
  patch_FieldManager :: string

type_synonym PatchType = string

type_synonym Context = string

text \<open>The list type \<^verbatim>\<open>L\<close> (\<^verbatim>\<open>client.List\<close>): the items and the resource version of the
  list's metadata.\<close>

record ObjectList =
  Items :: "Object list"
  list_ResourceVersion :: string

datatype WatchEvent = Added any | Modified any | Deleted any | Bookmark any | Error any

text \<open>
  \<^verbatim>\<open>rest.Interface\<close> and \<^verbatim>\<open>rest.Request\<close> are types of k8s.io/client-go. The client
  starts a request with a verb and calls builder methods on it; nothing is assumed about
  what a builder method does: a request is the verb and the sequence of the builder calls
  made on it, in the order of the calls.
\<close>

datatype verb = GET | POST | PUT | DELETE | PATCH PatchType

datatype params =
    GetParams GetOptions | ListParams ListOptions | CreateParams CreateOptions
  | UpdateParams UpdateOptions | PatchParams PatchOptions

datatype body = ObjectBody T | OptionsBody DeleteOptions | DataBody "8 word list"

datatype builder_call =
    Namespace string
  | Resource string
  | Name string
  | SubResource "string list"
  | VersionedParams params string
  | Timeout Duration
  | Body body

record Request =
  r_verb :: verb
  r_calls :: "builder_call list"

text \<open>
  Modelled from the spec: the transport and \<^verbatim>\<open>rest.Result\<close> are code of k8s.io/client-go
  and are not among the sources. The spec takes the transport as an opaque capability
  (1: "execute request, get typed object or error"). The transport is a parameter of the
  client: a function from the requests sent so far and the request to its result, which
  carries an error or a payload. Executing a request hands it to that function once and
  appends it to the requests sent. \<^verbatim>\<open>Into\<close> returns the error of the result, and decodes
  the payload when there is none.
\<close>

datatype payload =
    NoPayload | ObjectPayload Object | ListPayload ObjectList | StreamPayload "WatchEvent list"

record Result =
  res_payload :: payload
  res_err :: "error option"

record RESTClient =
  roundTrip :: "Request list \<Rightarrow> Request \<Rightarrow> Result"

text \<open>\<^verbatim>\<open>c.restClient.Get()\<close> and the other verbs start a request.\<close>

definition rest_Get :: "RESTClient \<Rightarrow> Request" where
  "rest_Get rc = \<lparr> r_verb = GET, r_calls = [] \<rparr>"

definition rest_Post :: "RESTClient \<Rightarrow> Request" where
  "rest_Post rc = \<lparr> r_verb = POST, r_calls = [] \<rparr>"

definition rest_Put :: "RESTClient \<Rightarrow> Request" where
  "rest_Put rc = \<lparr> r_verb = PUT, r_calls = [] \<rparr>"

definition rest_Delete :: "RESTClient \<Rightarrow> Request" where
  "rest_Delete rc = \<lparr> r_verb = DELETE, r_calls = [] \<rparr>"

definition rest_Patch :: "RESTClient \<Rightarrow> PatchType \<Rightarrow> Request" where
  "rest_Patch rc pt = \<lparr> r_verb = PATCH pt, r_calls = [] \<rparr>"

text \<open>A chain of builder calls \<^verbatim>\<open>r.A(..).B(..)\<close>, in the order of the source.\<close>

definition chain :: "Request \<Rightarrow> builder_call list \<Rightarrow> Request" where
  "chain r calls = r\<lparr>r_calls := r_calls r @ calls\<rparr>"

text \<open>What a request was built with: the arguments of its calls of \<^verbatim>\<open>Namespace\<close>, of
  \<^verbatim>\<open>Resource\<close>, of \<^verbatim>\<open>VersionedParams\<close> and of \<^verbatim>\<open>Timeout\<close>, in order.\<close>

fun namespaces :: "builder_call list \<Rightarrow> string list" where
  "namespaces [] = []"
| "namespaces (Namespace n # calls) = n # namespaces calls"
| "namespaces (call # calls) = namespaces calls"

fun resources :: "builder_call list \<Rightarrow> string list" where
  "resources [] = []"
| "resources (Resource n # calls) = n # resources calls"
| "resources (call # calls) = resources calls"

fun versioned_params :: "builder_call list \<Rightarrow> params list" where
  "versioned_params [] = []"
| "versioned_params (VersionedParams p codec # calls) = p # versioned_params calls"
| "versioned_params (call # calls) = versioned_params calls"

fun list_options :: "params list \<Rightarrow> ListOptions list" where
  "list_options [] = []"
| "list_options (ListParams opts # ps) = opts # list_options ps"
| "list_options (p # ps) = list_options ps"

fun timeouts :: "builder_call list \<Rightarrow> Duration list" where
  "timeouts [] = []"
| "timeouts (Timeout d # calls) = d # timeouts calls"
| "timeouts (call # calls) = timeouts calls"

text \<open>\<^verbatim>\<open>Do(ctx)\<close>, then \<^verbatim>\<open>Into(result)\<close>, \<^verbatim>\<open>Error()\<close>, or \<^verbatim>\<open>Watch(ctx)\<close> in its place.\<close>

definition Do :: "RESTClient \<Rightarrow> Context \<Rightarrow> Request \<Rightarrow> Request list \<Rightarrow> Result \<times> Request list" where
  "Do rc ctx r sent = (roundTrip rc sent r, sent @ [r])"

definition Into_T :: "Result \<Rightarrow> T \<Rightarrow> T \<times> error option" where
  "Into_T res result =
     (case res_err res of
        Some e \<Rightarrow> (result, Some e)
      | None \<Rightarrow>
          (case res_payload res of
             ObjectPayload obj \<Rightarrow> (Ptr obj, None)
           | _ \<Rightarrow> (result, Some ErrDecode)))"

definition Into_L :: "Result \<Rightarrow> ObjectList \<Rightarrow> ObjectList \<times> error option" where
  "Into_L res result =
     (case res_err res of
        Some e \<Rightarrow> (result, Some e)
      | None \<Rightarrow>
          (case res_payload res of
             ListPayload l \<Rightarrow> (l, None)
           | _ \<Rightarrow> (result, Some ErrDecode)))"

definition Error_of :: "Result \<Rightarrow> error option" where
  "Error_of res = res_err res"

definition DoWatch ::
  "RESTClient \<Rightarrow> Context \<Rightarrow> Request \<Rightarrow> Request list
     \<Rightarrow> (WatchEvent list option \<times> error option) \<times> Request list" where
  "DoWatch rc ctx r sent =
     (let res = roundTrip rc sent r in
      ((case res_err res of
          Some e \<Rightarrow> (None, Some e)
        | None \<Rightarrow>
            (case res_payload res of
               StreamPayload events \<Rightarrow> (Some events, None)
             | _ \<Rightarrow> (None, Some ErrDecode))),
       sent @ [r]))"

subsection \<open>The client\<close>

record client =
  scheme :: string
  resource :: string
  parameterCodec :: string
  restClient :: RESTClient
  ns :: string
  tType :: string
  lType :: string

text \<open>\<^verbatim>\<open>reflect.TypeOf(t).Elem()\<close>: the name of the struct behind the pointer type.\<close>

definition NewClient ::
  "string \<Rightarrow> string \<Rightarrow> RESTClient \<Rightarrow> string \<Rightarrow> string \<Rightarrow> string \<Rightarrow> string \<Rightarrow> client" where
  "NewClient scheme' parameterCodec' restClient' resource' namespace t_elem l_elem =
     \<lparr> scheme = scheme', resource = resource', parameterCodec = parameterCodec',
       restClient = restClient', ns = namespace, tType = t_elem, lType = l_elem \<rparr>"

text \<open>\<^verbatim>\<open>reflect.New(c.tType).Interface().(T)\<close>: a pointer to a fresh zero struct.\<close>

definition zeroObject :: Object where
  "zeroObject = \<lparr> GetNamespace = [], GetName = [], GetResourceVersion = [], Payload = [] \<rparr>"

definition newT :: "client \<Rightarrow> T" where
  "newT c = Ptr zeroObject"

definition newL :: "client \<Rightarrow> ObjectList" where
  "newL c = \<lparr> Items = [], list_ResourceVersion = [] \<rparr>"

text \<open>The clientset instantiates \<^verbatim>\<open>T\<close> with pointers to structs that embed
  \<^verbatim>\<open>ObjectMeta\<close>; \<^verbatim>\<open>cr.GetName()\<close> on a nil pointer dereferences it.\<close>

definition GetName_of :: "T \<Rightarrow> panic + string" where
  "GetName_of cr = (case cr of NilPtr \<Rightarrow> Inl NilDereference | Ptr obj \<Rightarrow> Inr (GetName obj))"

text \<open>\<^verbatim>\<open>var timeout time.Duration; if opts.TimeoutSeconds != nil { timeout = ... }\<close>\<close>

definition timeout_of :: "ListOptions \<Rightarrow> Duration" where
  "timeout_of opts =
     (case TimeoutSeconds opts of None \<Rightarrow> 0 | Some seconds \<Rightarrow> seconds * Second)"

text \<open>The request each method builds, up to the call of \<^verbatim>\<open>Do\<close> or \<^verbatim>\<open>Watch\<close>.\<close>

definition req_Get :: "client \<Rightarrow> string \<Rightarrow> GetOptions \<Rightarrow> Request" where
  "req_Get c name options =
     chain (rest_Get (restClient c))
       [Namespace (ns c), Resource (resource c), Name name,
        VersionedParams (GetParams options) (parameterCodec c)]"

definition req_List :: "client \<Rightarrow> ListOptions \<Rightarrow> Request" where
  "req_List c opts =
     (let timeout = timeout_of opts in
      chain (rest_Get (restClient c))
        [Namespace (ns c), Resource (resource c),
         VersionedParams (ListParams opts) (parameterCodec c), Timeout timeout])"

definition req_Watch :: "client \<Rightarrow> ListOptions \<Rightarrow> Request" where
  "req_Watch c opts =
     (let timeout = timeout_of opts;
          opts = opts\<lparr>Watch := True\<rparr> in
      chain (rest_Get (restClient c))
        [Namespace (ns c), Resource (resource c),
         VersionedParams (ListParams opts) (parameterCodec c), Timeout timeout])"

definition req_Create :: "client \<Rightarrow> T \<Rightarrow> CreateOptions \<Rightarrow> Request" where
  "req_Create c cr opts =
     chain (rest_Post (restClient c))
       [Namespace (ns c), Resource (resource c),
        VersionedParams (CreateParams opts) (parameterCodec c), Body (ObjectBody cr)]"

definition req_Update :: "client \<Rightarrow> T \<Rightarrow> string \<Rightarrow> UpdateOptions \<Rightarrow> Request" where
  "req_Update c cr cr_name opts =
     chain (rest_Put (restClient c))
       [Namespace (ns c), Resource (resource c), Name cr_name,
        VersionedParams (UpdateParams opts) (parameterCodec c), Body (ObjectBody cr)]"

definition req_UpdateStatus :: "client \<Rightarrow> T \<Rightarrow> string \<Rightarrow> UpdateOptions \<Rightarrow> Request" where
  "req_UpdateStatus c cr cr_name opts =
     chain (rest_Put (restClient c))
       [Namespace (ns c), Resource (resource c), Name cr_name, SubResource [''status''],
        VersionedParams (UpdateParams opts) (parameterCodec c), Body (ObjectBody cr)]"

definition req_Delete :: "client \<Rightarrow> string \<Rightarrow> DeleteOptions \<Rightarrow> Request" where
  "req_Delete c name opts =
     chain (rest_Delete (restClient c))
       [Namespace (ns c), Resource (resource c), Name name, Body (OptionsBody opts)]"

definition req_DeleteCollection :: "client \<Rightarrow> DeleteOptions \<Rightarrow> ListOptions \<Rightarrow> Request" where
  "req_DeleteCollection c opts listOpts =
     (let timeout = timeout_of listOpts in
      chain (rest_Delete (restClient c))
        [Namespace (ns c), Resource (resource c),
         VersionedParams (ListParams listOpts) (parameterCodec c), Timeout timeout,
         Body (OptionsBody opts)])"

definition req_Patch ::
  "client \<Rightarrow> string \<Rightarrow> PatchType \<Rightarrow> 8 word list \<Rightarrow> PatchOptions \<Rightarrow> string list \<Rightarrow> Request" where
  "req_Patch c name pt data opts subresources =
     chain (rest_Patch (restClient c) pt)
       [Namespace (ns c), Resource (resource c), Name name, SubResource subresources,
        VersionedParams (PatchParams opts) (parameterCodec c), Body (DataBody data)]"

text \<open>
  The methods. Each threads the list of requests sent; a method that can panic returns
  a sum. \<^verbatim>\<open>result = c.newT(); err = ...Do(ctx).Into(result); return\<close>
\<close>

definition client_Get ::
  "client \<Rightarrow> Context \<Rightarrow> string \<Rightarrow> GetOptions \<Rightarrow> Request list
     \<Rightarrow> (T \<times> error option) \<times> Request list" where
  "client_Get c ctx name options sent =
     (let result = newT c;
          (res, sent') = Do (restClient c) ctx (req_Get c name options) sent
      in (Into_T res result, sent'))"

definition client_List ::
  "client \<Rightarrow> Context \<Rightarrow> ListOptions \<Rightarrow> Request list
     \<Rightarrow> (ObjectList \<times> error option) \<times> Request list" where
  "client_List c ctx opts sent =
     (let result = newL c;
          (res, sent') = Do (restClient c) ctx (req_List c opts) sent
      in (Into_L res result, sent'))"

definition client_Watch ::
  "client \<Rightarrow> Context \<Rightarrow> ListOptions \<Rightarrow> Request list
     \<Rightarrow> (WatchEvent list option \<times> error option) \<times> Request list" where
  "client_Watch c ctx opts sent = DoWatch (restClient c) ctx (req_Watch c opts) sent"

definition client_Create ::
  "client \<Rightarrow> Context \<Rightarrow> T \<Rightarrow> CreateOptions \<Rightarrow> Request list
     \<Rightarrow> (T \<times> error option) \<times> Request list" where
  "client_Create c ctx cr opts sent =
     (let result = newT c;
          (res, sent') = Do (restClient c) ctx (req_Create c cr opts) sent
      in (Into_T res result, sent'))"

definition client_Update ::
  "client \<Rightarrow> Context \<Rightarrow> T \<Rightarrow> UpdateOptions \<Rightarrow> Request list
     \<Rightarrow> panic + ((T \<times> error option) \<times> Request list)" where
  "client_Update c ctx cr opts sent =
     (let result = newT c in
      case GetName_of cr of
        Inl p \<Rightarrow> Inl p
      | Inr cr_name \<Rightarrow>
          (let (res, sent') = Do (restClient c) ctx (req_Update c cr cr_name opts) sent
           in Inr (Into_T res result, sent')))"

definition client_UpdateStatus ::
  "client \<Rightarrow> Context \<Rightarrow> T \<Rightarrow> UpdateOptions \<Rightarrow> Request list
     \<Rightarrow> panic + ((T \<times> error option) \<times> Request list)" where
  "client_UpdateStatus c ctx cr opts sent =
     (let result = newT c in
      case GetName_of cr of
        Inl p \<Rightarrow> Inl p
      | Inr cr_name \<Rightarrow>
          (let (res, sent') = Do (restClient c) ctx (req_UpdateStatus c cr cr_name opts) sent
           in Inr (Into_T res result, sent')))"

definition client_Delete ::
  "client \<Rightarrow> Context \<Rightarrow> string \<Rightarrow> DeleteOptions \<Rightarrow> Request list
     \<Rightarrow> error option \<times> Request list" where
  "client_Delete c ctx name opts sent =
     (let (res, sent') = Do (restClient c) ctx (req_Delete c name opts) sent
      in (Error_of res, sent'))"

definition client_DeleteCollection ::
  "client \<Rightarrow> Context \<Rightarrow> DeleteOptions \<Rightarrow> ListOptions \<Rightarrow> Request list
     \<Rightarrow> error option \<times> Request list" where
  "client_DeleteCollection c ctx opts listOpts sent =
     (let (res, sent') = Do (restClient c) ctx (req_DeleteCollection c opts listOpts) sent
      in (Error_of res, sent'))"

definition client_Patch ::
  "client \<Rightarrow> Context \<Rightarrow> string \<Rightarrow> PatchType \<Rightarrow> 8 word list \<Rightarrow> PatchOptions \<Rightarrow> string list
     \<Rightarrow> Request list \<Rightarrow> (T \<times> error option) \<times> Request list" where
  "client_Patch c ctx name pt data opts subresources sent =
     (let result = newT c;
          (res, sent') = Do (restClient c) ctx (req_Patch c name pt data opts subresources) sent
      in (Into_T res result, sent'))"

text \<open>
  A call of one of the nine methods of \<^verbatim>\<open>Interface[T, L]\<close>, the request it builds and
  its outcome: the error it returns and the requests sent.
\<close>

datatype client_call =
    Call_Get string GetOptions
  | Call_List ListOptions
  | Call_Watch ListOptions
  | Call_Create T CreateOptions
  | Call_Update T UpdateOptions
  | Call_UpdateStatus T UpdateOptions
  | Call_Delete string DeleteOptions
  | Call_DeleteCollection DeleteOptions ListOptions
  | Call_Patch string PatchType "8 word list" PatchOptions "string list"

fun request_of :: "client \<Rightarrow> client_call \<Rightarrow> panic + Request" where
  "request_of c (Call_Get name options) = Inr (req_Get c name options)"
| "request_of c (Call_List opts) = Inr (req_List c opts)"
| "request_of c (Call_Watch opts) = Inr (req_Watch c opts)"
| "request_of c (Call_Create cr opts) = Inr (req_Create c cr opts)"
| "request_of c (Call_Update cr opts) =
     (case GetName_of cr of Inl p \<Rightarrow> Inl p | Inr n \<Rightarrow> Inr (req_Update c cr n opts))"
| "request_of c (Call_UpdateStatus cr opts) =
     (case GetName_of cr of Inl p \<Rightarrow> Inl p | Inr n \<Rightarrow> Inr (req_UpdateStatus c cr n opts))"
| "request_of c (Call_Delete name opts) = Inr (req_Delete c name opts)"
| "request_of c (Call_DeleteCollection opts listOpts) =
     Inr (req_DeleteCollection c opts listOpts)"
| "request_of c (Call_Patch name pt data opts subresources) =
     Inr (req_Patch c name pt data opts subresources)"

fun invoke ::
  "client \<Rightarrow> Context \<Rightarrow> client_call \<Rightarrow> Request list \<Rightarrow> panic + (error option \<times> Request list)"
  where
  "invoke c ctx (Call_Get name options) sent =
     (case client_Get c ctx name options sent of ((result, err), sent') \<Rightarrow> Inr (err, sent'))"
| "invoke c ctx (Call_List opts) sent =
     (case client_List c ctx opts sent of ((result, err), sent') \<Rightarrow> Inr (err, sent'))"
| "invoke c ctx (Call_Watch opts) sent =
     (case client_Watch c ctx opts sent of ((w, err), sent') \<Rightarrow> Inr (err, sent'))"
| "invoke c ctx (Call_Create cr opts) sent =
     (case client_Create c ctx cr opts sent of ((result, err), sent') \<Rightarrow> Inr (err, sent'))"
| "invoke c ctx (Call_Update cr opts) sent =
     (case client_Update c ctx cr opts sent of
        Inl p \<Rightarrow> Inl p
      | Inr ((result, err), sent') \<Rightarrow> Inr (err, sent'))"
| "invoke c ctx (Call_UpdateStatus cr opts) sent =
     (case client_UpdateStatus c ctx cr opts sent of
        Inl p \<Rightarrow> Inl p
      | Inr ((result, err), sent') \<Rightarrow> Inr (err, sent'))"
| "invoke c ctx (Call_Delete name opts) sent = Inr (client_Delete c ctx name opts sent)"
| "invoke c ctx (Call_DeleteCollection opts listOpts) sent =
     Inr (client_DeleteCollection c ctx opts listOpts sent)"
| "invoke c ctx (Call_Patch name pt data opts subresources) sent =
     (case client_Patch c ctx name pt data opts subresources sent of
        ((result, err), sent') \<Rightarrow> Inr (err, sent'))"

text \<open>One client instance used for a sequence of calls; a panic ends the sequence.\<close>

fun invoke_all :: "client \<Rightarrow> Context \<Rightarrow> client_call list \<Rightarrow> Request list \<Rightarrow> panic + Request list"
  where
  "invoke_all c ctx [] sent = Inr sent"
| "invoke_all c ctx (call # calls) sent =
     (case invoke c ctx call sent of
        Inl p \<Rightarrow> Inl p
      | Inr (err, sent') \<Rightarrow> invoke_all c ctx calls sent')"

section \<open>The informer (cache/informer.go)\<close>

text \<open>
  \<^verbatim>\<open>ResourceEventHandler[T]\<close>: an interface of three methods with effects. A handler is a
  record of three operations on its own state \<open>'h\<close>; a nil handler is \<open>None\<close>.
\<close>

record 'h ResourceEventHandler =
  OnAdd :: "T \<Rightarrow> 'h \<Rightarrow> 'h"
  OnUpdate :: "T \<Rightarrow> T \<Rightarrow> 'h \<Rightarrow> 'h"
  OnDelete :: "T \<Rightarrow> 'h \<Rightarrow> 'h"

text \<open>\<^verbatim>\<open>cache.ResourceEventHandlerFuncs\<close> (k8s.io/client-go): three callbacks on
  \<^verbatim>\<open>interface{}\<close> values. The callbacks the source installs can panic in a type
  assertion.\<close>

record 'h ResourceEventHandlerFuncs =
  AddFunc :: "any \<Rightarrow> 'h \<Rightarrow> panic + 'h"
  UpdateFunc :: "any \<Rightarrow> any \<Rightarrow> 'h \<Rightarrow> panic + 'h"
  DeleteFunc :: "any \<Rightarrow> 'h \<Rightarrow> panic + 'h"

text \<open>\<^verbatim>\<open>var handler cache.ResourceEventHandler; if h != nil { handler = ... }\<close>\<close>

definition Informer_handler ::
  "'h ResourceEventHandler option \<Rightarrow> 'h ResourceEventHandlerFuncs option" where
  "Informer_handler h =
     (case h of
        None \<Rightarrow> None
      | Some h' \<Rightarrow>
          Some \<lparr> AddFunc = (\<lambda>obj hs.
                   case assertT obj of Inl p \<Rightarrow> Inl p | Inr t \<Rightarrow> Inr (OnAdd h' t hs)),
                 UpdateFunc = (\<lambda>oldObj newObj hs.
                   case assertT oldObj of
                     Inl p \<Rightarrow> Inl p
                   | Inr old \<Rightarrow>
                       (case assertT newObj of
                          Inl p \<Rightarrow> Inl p
                        | Inr new \<Rightarrow> Inr (OnUpdate h' old new hs))),
                 DeleteFunc = (\<lambda>obj hs.
                   case assertT obj of Inl p \<Rightarrow> Inl p | Inr t \<Rightarrow> Inr (OnDelete h' t hs)) \<rparr>)"

text \<open>\<^verbatim>\<open>cache.ListWatch\<close> with the two closures of \<^verbatim>\<open>Informer\<close>; a nil
  \<^verbatim>\<open>optionsModifier\<close> is \<open>None\<close>. The modifier writes through \<^verbatim>\<open>&options\<close>.\<close>

record ListWatch =
  ListFunc ::
    "ListOptions \<Rightarrow> Request list \<Rightarrow> (ObjectList \<times> error option) \<times> Request list"
  WatchFunc ::
    "ListOptions \<Rightarrow> Request list \<Rightarrow> (WatchEvent list option \<times> error option) \<times> Request list"

definition Informer_ListFunc ::
  "Context \<Rightarrow> client \<Rightarrow> (ListOptions \<Rightarrow> ListOptions) option \<Rightarrow> ListOptions \<Rightarrow> Request list
     \<Rightarrow> (ObjectList \<times> error option) \<times> Request list" where
  "Informer_ListFunc ctx c optionsModifier options sent =
     (let options = (case optionsModifier of None \<Rightarrow> options | Some modify \<Rightarrow> modify options)
      in client_List c ctx options sent)"

definition Informer_WatchFunc ::
  "Context \<Rightarrow> client \<Rightarrow> (ListOptions \<Rightarrow> ListOptions) option \<Rightarrow> ListOptions \<Rightarrow> Request list
     \<Rightarrow> (WatchEvent list option \<times> error option) \<times> Request list" where
  "Informer_WatchFunc ctx c optionsModifier options sent =
     (let options = (case optionsModifier of None \<Rightarrow> options | Some modify \<Rightarrow> modify options)
      in client_Watch c ctx options sent)"

definition Informer_ListWatch ::
  "Context \<Rightarrow> client \<Rightarrow> (ListOptions \<Rightarrow> ListOptions) option \<Rightarrow> ListWatch" where
  "Informer_ListWatch ctx c optionsModifier =
     \<lparr> ListFunc = Informer_ListFunc ctx c optionsModifier,
       WatchFunc = Informer_WatchFunc ctx c optionsModifier \<rparr>"

text \<open>
  \<^verbatim>\<open>Informer\<close> calls \<^verbatim>\<open>cache.NewInformer\<close>, a function of k8s.io/client-go that returns a
  store and a controller; it is a parameter here. \<^verbatim>\<open>t\<close> is a pointer to a fresh zero
  struct.
\<close>

definition Informer ::
  "(ListWatch \<Rightarrow> T \<Rightarrow> Duration \<Rightarrow> 'h ResourceEventHandlerFuncs option
      \<Rightarrow> 's cache_Store \<times> 'ctl)
     \<Rightarrow> Context \<Rightarrow> client \<Rightarrow> Duration \<Rightarrow> 'h ResourceEventHandler option
     \<Rightarrow> (ListOptions \<Rightarrow> ListOptions) option \<Rightarrow> 's store \<times> 'ctl" where
  "Informer cache_NewInformer ctx c resyncPeriod h optionsModifier =
     (let handler = Informer_handler h;
          t = Ptr zeroObject;
          (s, controller) =
            cache_NewInformer (Informer_ListWatch ctx c optionsModifier) t resyncPeriod handler
      in (\<lparr> Store = s \<rparr>, controller))"

text \<open>
  Modelled from the spec: \<^verbatim>\<open>cache.NewInformer\<close> and the \<^verbatim>\<open>cache.Controller\<close> it returns
  are code of k8s.io/client-go and are not among the sources. The controller keeps what
  it was constructed with; the store it creates is the one of the spec (4.4).
\<close>

record 'h Controller =
  ctl_lw :: ListWatch
  ctl_objType :: T
  ctl_resyncPeriod :: Duration
  ctl_handler :: "'h ResourceEventHandlerFuncs option"

definition NewInformer ::
  "ListWatch \<Rightarrow> T \<Rightarrow> Duration \<Rightarrow> 'h ResourceEventHandlerFuncs option
     \<Rightarrow> store_state cache_Store \<times> 'h Controller" where
  "NewInformer lw objType resyncPeriod h =
     (spec_Store,
      \<lparr> ctl_lw = lw, ctl_objType = objType, ctl_resyncPeriod = resyncPeriod,
        ctl_handler = h \<rparr>)"

subsection \<open>The sync loop\<close>

text \<open>
  Modelled from the spec: the loop that \<^verbatim>\<open>cache.NewInformer\<close> runs is code of
  k8s.io/client-go and is not among the sources. The spec describes it (4.3, 4.5, 7, 8).
  It has two states, Relisting and Watching, and an optional periodic resync; it is given
  the callbacks the informer was constructed with. What the transport answers (the
  snapshots, the events of each stream) is an input of the model, and so is the order in
  which the loop passes through its states, which the transport's answers and the clock
  decide; the checkpoint and the backoff delay only select what the transport is asked
  and when, and are not part of the state. The state is that of the store and that of
  the handler.

  A notification is one call of one of the three callbacks. A callback that panics ends
  the run.
\<close>

datatype callback = CallAdd any | CallUpdate any any | CallDelete any

fun notify :: "'h ResourceEventHandlerFuncs \<Rightarrow> callback \<Rightarrow> 'h \<Rightarrow> panic + 'h" where
  "notify handler (CallAdd x) hs = AddFunc handler x hs"
| "notify handler (CallUpdate old x) hs = UpdateFunc handler old x hs"
| "notify handler (CallDelete x) hs = DeleteFunc handler x hs"

fun notify_all :: "'h ResourceEventHandlerFuncs \<Rightarrow> callback list \<Rightarrow> 'h \<Rightarrow> panic + 'h" where
  "notify_all handler [] hs = Inr hs"
| "notify_all handler (c # cs) hs =
     (case notify handler c hs of
        Inl p \<Rightarrow> Inl p
      | Inr hs' \<Rightarrow> notify_all handler cs hs')"

text \<open>
  Watching (4.3): "For each event: apply to Store (Added/Modified -> upsert; Deleted ->
  remove)"; the loop "reads Store only to determine whether a delete is genuinely new"
  (2), so a Deleted event for a key that the store does not hold changes nothing; a
  bookmark carries no object change. An Error event ends the stream, and so does a
  malformed event, here an event whose object has no key: "the offending event is dropped
  and logged; the stream is treated as terminated" (7). \<open>reflect\<close> is what the loop
  decides on one event.
\<close>

datatype mutation = Upsert any | Remove any

datatype reflected = Apply mutation | Skip | Terminate

definition reflect :: "WatchEvent \<Rightarrow> store_state \<Rightarrow> reflected" where
  "reflect ev st =
     (case ev of
        Added x \<Rightarrow> (case keyFunc x of Inl e \<Rightarrow> Terminate | Inr k \<Rightarrow> Apply (Upsert x))
      | Modified x \<Rightarrow> (case keyFunc x of Inl e \<Rightarrow> Terminate | Inr k \<Rightarrow> Apply (Upsert x))
      | Deleted x \<Rightarrow>
          (case keyFunc x of
             Inl e \<Rightarrow> Terminate
           | Inr k \<Rightarrow> if k \<in> set (spec_ListKeys st) then Apply (Remove x) else Skip)
      | Bookmark x \<Rightarrow> Skip
      | Error x \<Rightarrow> Terminate)"

text \<open>
  Dispatcher (4.5): each store mutation becomes exactly one notification, \<^verbatim>\<open>OnAdd\<close> for a
  key newly present, \<^verbatim>\<open>OnUpdate(old, new)\<close> for a key already present, \<^verbatim>\<open>OnDelete\<close> for a
  key removed. \<open>dispatch\<close> performs one mutation on the store and notifies it, and
  returns the error of the store. Where the store refuses the object there is no mutation
  and no notification, and the error is returned; where the store holds no entry to
  remove there is no mutation, no notification and no error (4.4: "a missing key on Delete
  is a no-op, not an error").
\<close>

definition dispatch ::
  "'h ResourceEventHandlerFuncs \<Rightarrow> mutation \<Rightarrow> store_state \<times> 'h
     \<Rightarrow> panic + (error option \<times> store_state \<times> 'h)"
  where
  "dispatch handler m s =
     (case s of (st, hs) \<Rightarrow>
        (case m of
           Upsert x \<Rightarrow>
             (case spec_Get x st of
                (old, exists, err) \<Rightarrow>
                  (case (if exists then spec_Update x st else spec_Add x st) of
                     (Some e, st') \<Rightarrow> Inr (Some e, st, hs)
                   | (None, st') \<Rightarrow>
                       (case notify handler (if exists then CallUpdate old x else CallAdd x) hs of
                          Inl p \<Rightarrow> Inl p
                        | Inr hs' \<Rightarrow> Inr (None, st', hs'))))
         | Remove x \<Rightarrow>
             (case spec_Get x st of
                (old, exists, err) \<Rightarrow>
                  if exists
                  then (case spec_Delete x st of
                          (Some e, st') \<Rightarrow> Inr (Some e, st, hs)
                        | (None, st') \<Rightarrow>
                            (case notify handler (CallDelete x) hs of
                               Inl p \<Rightarrow> Inl p
                             | Inr hs' \<Rightarrow> Inr (None, st', hs')))
                  else Inr (err, st, hs))))"

text \<open>\<open>sync\<close> is the Watching state on the events of one stream, up to the event that
  ends it. An error of the store ends the stream as a malformed event does.\<close>

fun sync ::
  "'h ResourceEventHandlerFuncs \<Rightarrow> WatchEvent list \<Rightarrow> store_state \<times> 'h
     \<Rightarrow> panic + (store_state \<times> 'h)" where
  "sync handler [] s = Inr s"
| "sync handler (ev # evs) s =
     (case reflect ev (fst s) of
        Terminate \<Rightarrow> Inr s
      | Skip \<Rightarrow> sync handler evs s
      | Apply m \<Rightarrow>
          (case dispatch handler m s of
             Inl p \<Rightarrow> Inl p
           | Inr (Some e, s') \<Rightarrow> Inr s'
           | Inr (None, s') \<Rightarrow> sync handler evs s'))"

text \<open>
  Relisting (4.3): "atomically Replace the Store's full contents with the snapshot";
  "objects present in the old Store but absent from the snapshot are treated as implicit
  deletes and dispatched as such", and (8) "exactly one OnDelete fires" for such a key.
  The objects of the snapshot are notified as upserts, in the order of the snapshot:
  \<^verbatim>\<open>OnAdd\<close> for a key the store did not hold, \<^verbatim>\<open>OnUpdate(old, new)\<close> for a key it held.
  Then each entry of the old store whose key the snapshot omits is notified as a delete.
  A snapshot that the store refuses changes nothing.

  The spec does not say which value the loop hands to the delete callback for an implicit
  delete, of which the server sent no event. It is the parameter \<open>gone\<close> of the loop, a
  function of the key and of the entry that the store held. \<open>last_known\<close> hands over the
  entry itself. \<open>tombstone\<close> hands over a marker of another type in its place, as
  \<^verbatim>\<open>cache.NewInformer\<close> of k8s.io/client-go does with its
  \<^verbatim>\<open>cache.DeletedFinalStateUnknown\<close>.
\<close>

definition last_known :: "string \<Rightarrow> any \<Rightarrow> any" where
  "last_known key item = item"

definition tombstone :: "string \<Rightarrow> any \<Rightarrow> any" where
  "tombstone key item = OfOther ''cache.DeletedFinalStateUnknown''"

fun upserted :: "any list \<Rightarrow> store_state \<Rightarrow> callback list" where
  "upserted [] st = []"
| "upserted (x # xs) st =
     (case spec_Get x st of
        (old, exists, err) \<Rightarrow>
          (if exists then CallUpdate old x else CallAdd x) # upserted xs (snd (spec_Add x st)))"

definition omitted :: "(string \<Rightarrow> any \<Rightarrow> any) \<Rightarrow> store_state \<Rightarrow> store_state \<Rightarrow> callback list" where
  "omitted gone st st' =
     map (\<lambda>kv. CallDelete (gone (fst kv) (snd kv)))
       (filter (\<lambda>kv. fst kv \<notin> set (spec_ListKeys st')) st)"

definition relist ::
  "(string \<Rightarrow> any \<Rightarrow> any) \<Rightarrow> 'h ResourceEventHandlerFuncs \<Rightarrow> any list \<Rightarrow> string
     \<Rightarrow> store_state \<times> 'h \<Rightarrow> panic + (store_state \<times> 'h)" where
  "relist gone handler items resourceVersion s =
     (case s of (st, hs) \<Rightarrow>
        (case spec_Replace items resourceVersion st of
           (Some e, st') \<Rightarrow> Inr (st, hs)
         | (None, st') \<Rightarrow>
             (case notify_all handler (upserted items st @ omitted gone st st') hs of
                Inl p \<Rightarrow> Inl p
              | Inr hs' \<Rightarrow> Inr (st', hs'))))"

text \<open>
  Resync (4.3): "replays every Store entry through the dispatcher as a synthetic Update
  even with no underlying change"; it "does not alter the Store or checkpoint".
\<close>

definition resync ::
  "'h ResourceEventHandlerFuncs \<Rightarrow> store_state \<times> 'h \<Rightarrow> panic + (store_state \<times> 'h)" where
  "resync handler s =
     (case s of (st, hs) \<Rightarrow>
        (case notify_all handler (map (\<lambda>x. CallUpdate x x) (spec_List st)) hs of
           Inl p \<Rightarrow> Inl p
         | Inr hs' \<Rightarrow> Inr (snd (spec_Resync st), hs')))"

text \<open>A run of the loop: the states it passes through, each with what the transport
  answered there.\<close>

datatype phase = Relisting "any list" string | Watching "WatchEvent list" | Resyncing

fun sync_loop ::
  "(string \<Rightarrow> any \<Rightarrow> any) \<Rightarrow> 'h ResourceEventHandlerFuncs \<Rightarrow> phase list
     \<Rightarrow> store_state \<times> 'h \<Rightarrow> panic + (store_state \<times> 'h)" where
  "sync_loop gone handler [] s = Inr s"
| "sync_loop gone handler (ph # phs) s =
     (case (case ph of
              Relisting items resourceVersion \<Rightarrow> relist gone handler items resourceVersion s
            | Watching evs \<Rightarrow> sync handler evs s
            | Resyncing \<Rightarrow> resync handler s) of
        Inl p \<Rightarrow> Inl p
      | Inr s' \<Rightarrow> sync_loop gone handler phs s')"



text \<open>A handler that records the calls it receives, in order.\<close>

datatype notification = CalledOnAdd T | CalledOnUpdate T T | CalledOnDelete T

definition recorder :: "notification list ResourceEventHandler" where
  "recorder =
     \<lparr> OnAdd = (\<lambda>obj calls. calls @ [CalledOnAdd obj]),
       OnUpdate = (\<lambda>oldObj newObj calls. calls @ [CalledOnUpdate oldObj newObj]),
       OnDelete = (\<lambda>obj calls. calls @ [CalledOnDelete obj]) \<rparr>"

text \<open>Delivering a recorded call to a handler.\<close>

fun deliver :: "'h ResourceEventHandler \<Rightarrow> notification \<Rightarrow> 'h \<Rightarrow> 'h" where
  "deliver h (CalledOnAdd obj) hs = OnAdd h obj hs"
| "deliver h (CalledOnUpdate oldObj newObj) hs = OnUpdate h oldObj newObj hs"
| "deliver h (CalledOnDelete obj) hs = OnDelete h obj hs"

text \<open>The wrapper and the callbacks assert the type \<^verbatim>\<open>T\<close> on what the store holds and on
  what the loop hands them.\<close>

fun is_T :: "any \<Rightarrow> bool" where
  "is_T (OfT t) = True"
| "is_T NilInterface = False"
| "is_T (OfOther d) = False"

subsection \<open>What the caller of Informer holds\<close>

text \<open>
  \<^verbatim>\<open>Informer\<close> returns a \<^verbatim>\<open>Store[T]\<close> and a \<^verbatim>\<open>Controller\<close>. The interface \<^verbatim>\<open>Store[T]\<close>
  declares nine methods (cache/informer.go, lines 21 to 52); a call of one of them acts on
  the state of the store and on nothing else. \<^verbatim>\<open>Controller\<close> is an alias of
  \<^verbatim>\<open>cache.Controller\<close>, a type of k8s.io/client-go; the source declares no method on it.
  A session is what the caller holds, with the state of the store.
\<close>

datatype store_call =
    Store_Add T | Store_Update T | Store_Delete T | Store_List | Store_ListKeys
  | Store_Get T | Store_GetByKey string | Store_Replace "T list" string | Store_Resync

record ('s, 'ctl) session =
  ss_store :: "'s store"
  ss_controller :: "'ctl"
  ss_state :: "'s"

definition start :: "'s store \<times> 'ctl \<Rightarrow> 's \<Rightarrow> ('s, 'ctl) session" where
  "start p st = \<lparr> ss_store = fst p, ss_controller = snd p, ss_state = st \<rparr>"

fun store_step :: "store_call \<Rightarrow> ('s, 'ctl) session \<Rightarrow> ('s, 'ctl) session" where
  "store_step (Store_Add obj) ss =
     ss\<lparr>ss_state := snd (store_Add (ss_store ss) obj (ss_state ss))\<rparr>"
| "store_step (Store_Update obj) ss =
     ss\<lparr>ss_state := snd (store_Update (ss_store ss) obj (ss_state ss))\<rparr>"
| "store_step (Store_Delete obj) ss =
     ss\<lparr>ss_state := snd (store_Delete (ss_store ss) obj (ss_state ss))\<rparr>"
| "store_step (Store_Replace items rv) ss =
     ss\<lparr>ss_state := snd (store_Replace (ss_store ss) items rv (ss_state ss))\<rparr>"
| "store_step Store_Resync ss =
     ss\<lparr>ss_state := snd (store_Resync (ss_store ss) (ss_state ss))\<rparr>"
| "store_step Store_List ss = ss"
| "store_step Store_ListKeys ss = ss"
| "store_step (Store_Get obj) ss = ss"
| "store_step (Store_GetByKey key) ss = ss"

subsection \<open>Sample values\<close>

definition pod_a :: Object where
  "pod_a = \<lparr> GetNamespace = ''default'', GetName = ''a'', GetResourceVersion = ''10'',
             Payload = ''A'' \<rparr>"

definition pod_a2 :: Object where
  "pod_a2 = \<lparr> GetNamespace = ''default'', GetName = ''a'', GetResourceVersion = ''12'',
              Payload = ''A2'' \<rparr>"

definition pod_b :: Object where
  "pod_b = \<lparr> GetNamespace = ''default'', GetName = ''b'', GetResourceVersion = ''11'',
             Payload = ''B'' \<rparr>"

definition sample_handler :: "notification list ResourceEventHandlerFuncs" where
  "sample_handler = the (Informer_handler (Some recorder))"

definition sample_transport :: RESTClient where
  "sample_transport =
     \<lparr> roundTrip = (\<lambda>sent r.
         if Name ''missing'' \<in> set (r_calls r)
         then \<lparr> res_payload = NoPayload, res_err = Some ErrNotFound \<rparr>
         else \<lparr> res_payload = ObjectPayload pod_a, res_err = None \<rparr>) \<rparr>"

text \<open>\<^verbatim>\<open>Pods("default")\<close> of the clientset.\<close>

definition pods :: client where
  "pods =
     NewClient ''scheme'' ''codec'' sample_transport ''pods'' ''default'' ''Pod'' ''PodList''"

definition sample_options :: ListOptions where
  "sample_options =
     \<lparr> LabelSelector = ''app=web'', FieldSelector = [], Watch = False,
       ResourceVersion = ''10'', TimeoutSeconds = Some 30, Limit = 0 \<rparr>"

section \<open>Properties of the store\<close>

lemma informer_store_simps:
  "cache_Add (Store informer_store) = spec_Add"
  "cache_Update (Store informer_store) = spec_Update"
  "cache_Delete (Store informer_store) = spec_Delete"
  "cache_List (Store informer_store) = spec_List"
  "cache_ListKeys (Store informer_store) = spec_ListKeys"
  "cache_Get (Store informer_store) = spec_Get"
  "cache_GetByKey (Store informer_store) = spec_GetByKey"
  "cache_Replace (Store informer_store) = spec_Replace"
  "cache_Resync (Store informer_store) = spec_Resync"
  by (simp_all add: informer_store_def spec_Store_def)

lemma Informer_store:
  "fst (Informer NewInformer ctx c resyncPeriod h optionsModifier) = informer_store"
  by (simp add: Informer_def NewInformer_def informer_store_def)

lemma sample_keys:
  "objKey pod_a = ''default/a''" "objKey pod_a2 = ''default/a''" "objKey pod_b = ''default/b''"
  by (simp_all add: objKey_def pod_a_def pod_a2_def pod_b_def)

lemma update_fresh: "k \<notin> fst ` set st \<Longrightarrow> AList.update k v st = st @ [(k, v)]"
  by (induction st) auto

lemma upsert_all_fresh:
  "distinct ks \<Longrightarrow> length ks = length xs \<Longrightarrow> set ks \<inter> fst ` set st = {}
     \<Longrightarrow> upsert_all (zip ks xs) st = st @ zip ks xs"
proof (induction ks arbitrary: xs st)
  case Nil
  then show ?case by simp
next
  case (Cons k ks)
  then obtain x xs' where xs: "xs = x # xs'" by (cases xs) auto
  from Cons.prems have fresh: "k \<notin> fst ` set st" by auto
  have "set ks \<inter> fst ` set (st @ [(k, x)]) = {}"
    using Cons.prems by auto
  with Cons.prems xs have "upsert_all (zip ks xs') (st @ [(k, x)]) = (st @ [(k, x)]) @ zip ks xs'"
    by (intro Cons.IH) auto
  with fresh xs show ?case by (simp add: update_fresh)
qed

lemma keyFunc_all_Ptr: "keyFunc_all (map (OfT \<circ> Ptr) objs) = Inr (map objKey objs)"
  by (induction objs) auto

lemma assertT_all_OfT: "assertT_all (map (OfT \<circ> f) ts) = Inr (map f ts)"
  by (induction ts) auto

lemma assertT_Inr: "assertT x = Inr t \<longleftrightarrow> x = OfT t"
  by (cases x) auto

lemma spec_GetByKey_absent:
  assumes "key \<notin> set (spec_ListKeys st)"
  shows "spec_GetByKey key st = (NilInterface, False, None)"
proof -
  have "map_of st key = None"
    using assms by (simp add: map_of_eq_None_iff spec_ListKeys_def)
  then show ?thesis by (simp add: spec_GetByKey_def)
qed

lemma spec_Get_Ptr: "spec_Get (OfT (Ptr obj)) st = spec_GetByKey (objKey obj) st"
  by (simp add: spec_Get_def)

lemma spec_Add_twice: "spec_Add x (snd (spec_Add x st)) = spec_Add x st"
  by (cases "keyFunc x") (simp_all add: spec_Add_def)

lemma spec_Update_twice: "spec_Update x (snd (spec_Update x st)) = spec_Update x st"
  by (cases "keyFunc x") (simp_all add: spec_Update_def)

text \<open>
  C2. After \<^verbatim>\<open>Replace(items, rv)\<close> with non-nil items of pairwise distinct keys, on
  any store state, \<^verbatim>\<open>Replace\<close> returns no error, \<^verbatim>\<open>List()\<close> returns without a panic
  exactly the items (the same set, one entry per item), and the keys of the store are the
  keys of the items, each once: nothing of the old state remains.
\<close>

theorem store_Replace_full:
  "distinct (map objKey objs) \<Longrightarrow>
     (case store_Replace informer_store (map Ptr objs) rv st of
        (err, st') \<Rightarrow>
          err = None \<and>
          (\<exists>l. store_List informer_store st' = Inr l \<and> set l = set (map Ptr objs)
                \<and> length l = length objs) \<and>
          set (store_ListKeys informer_store st') = set (map objKey objs) \<and>
          distinct (store_ListKeys informer_store st'))"
proof -
  assume d: "distinct (map objKey objs)"
  let ?xs = "map (OfT \<circ> Ptr) objs"
  have st': "upsert_all (zip (map objKey objs) ?xs) [] = zip (map objKey objs) ?xs"
    using upsert_all_fresh [OF d, of ?xs "[]"] by simp
  have r: "store_Replace informer_store (map Ptr objs) rv st = (None, zip (map objKey objs) ?xs)"
    using st' by (simp add: store_Replace_def informer_store_simps spec_Replace_def keyFunc_all_Ptr)
  have l: "store_List informer_store (zip (map objKey objs) ?xs) = Inr (map Ptr objs)"
    by (simp add: store_List_def informer_store_simps spec_List_def assertT_all_OfT)
  have k: "store_ListKeys informer_store (zip (map objKey objs) ?xs) = map objKey objs"
    by (simp add: store_ListKeys_def informer_store_simps spec_ListKeys_def)
  show ?thesis using d by (simp add: r l k)
qed

theorem store_Replace_full_witness:
  "distinct (map objKey [pod_a, pod_b]) \<and>
   (case store_Replace informer_store (map Ptr [pod_a, pod_b]) ''11''
           [(''default/c'', OfT (Ptr pod_a2))] of
      (err, st') \<Rightarrow>
        err = None \<and>
        (\<exists>l. store_List informer_store st' = Inr l \<and> set l = set (map Ptr [pod_a, pod_b])
              \<and> length l = length [pod_a, pod_b]) \<and>
        set (store_ListKeys informer_store st') = set (map objKey [pod_a, pod_b]) \<and>
        distinct (store_ListKeys informer_store st'))"
proof -
  have d: "distinct (map objKey [pod_a, pod_b])"
    by (simp add: sample_keys)
  from d store_Replace_full [OF d, of "''11''" "[(''default/c'', OfT (Ptr pod_a2))]"]
  show ?thesis by (rule conjI)
qed

text \<open>
  The store modelled from the spec has the contract of 4.4 for its mutations: through the
  wrapper, \<^verbatim>\<open>Add\<close>, \<^verbatim>\<open>Update\<close> and \<^verbatim>\<open>Delete\<close> of a non-nil object return no error, and
  \<^verbatim>\<open>Delete\<close> of an object whose key is not in the store leaves the state as it is.
\<close>

lemma spec_store_mutations_total:
  "fst (store_Add informer_store (Ptr obj) st) = None \<and>
   fst (store_Update informer_store (Ptr obj) st) = None \<and>
   fst (store_Delete informer_store (Ptr obj) st) = None \<and>
   (objKey obj \<notin> set (store_ListKeys informer_store st)
      \<longrightarrow> store_Delete informer_store (Ptr obj) st = (None, st))"
  by (simp add: store_Add_def store_Update_def store_Delete_def store_ListKeys_def
      informer_store_simps spec_Add_def spec_Update_def spec_Delete_def spec_ListKeys_def)

text \<open>The wrapper adds nothing to a mutation: it returns the error and leaves the state
  of the embedded store, whatever its implementation.\<close>

lemma store_mutations_delegate:
  "store_Add s obj st = cache_Add (Store s) (OfT obj) st \<and>
   store_Update s obj st = cache_Update (Store s) (OfT obj) st \<and>
   store_Delete s obj st = cache_Delete (Store s) (OfT obj) st"
  by (simp add: store_Add_def store_Update_def store_Delete_def)

text \<open>
  C9. On the store of the informer, at any state: for a key that is not among the keys of
  the store, \<^verbatim>\<open>GetByKey\<close> returns the zero value of \<^verbatim>\<open>T\<close>, \<^verbatim>\<open>exists = false\<close> and no
  error, and does not panic; for an object whose key is not among the keys of the store,
  so does \<^verbatim>\<open>Get\<close>; for the nil object, which has no key, \<^verbatim>\<open>Get\<close> returns the zero value,
  \<^verbatim>\<open>exists = false\<close> and the error of the key function, and does not panic. For any
  implementation of the embedded \<^verbatim>\<open>cache.Store\<close>, any state and any key or object: when
  the embedded store answers a lookup with the nil item, \<^verbatim>\<open>GetByKey\<close> and \<^verbatim>\<open>Get\<close> return
  the zero value of \<^verbatim>\<open>T\<close> with the \<^verbatim>\<open>exists\<close> and \<^verbatim>\<open>err\<close> of the embedded store, and do
  not panic: the type assertion is not evaluated on the nil item.
\<close>

theorem store_lookup_absent:
  "(key \<notin> set (store_ListKeys informer_store st)
      \<longrightarrow> store_GetByKey informer_store key st = Inr (zeroT, False, None)) \<and>
   (objKey obj \<notin> set (store_ListKeys informer_store st)
      \<longrightarrow> store_Get informer_store (Ptr obj) st = Inr (zeroT, False, None)) \<and>
   store_Get informer_store NilPtr st = Inr (zeroT, False, Some ErrKey) \<and>
   (cache_GetByKey (Store s) key' st' = (NilInterface, exists, err)
      \<longrightarrow> store_GetByKey s key' st' = Inr (zeroT, exists, err)) \<and>
   (cache_Get (Store s) (OfT t) st' = (NilInterface, exists, err)
      \<longrightarrow> store_Get s t st' = Inr (zeroT, exists, err))"
  by (simp add: store_GetByKey_def store_Get_def store_ListKeys_def informer_store_simps
      spec_Get_def spec_GetByKey_absent)

theorem store_lookup_absent_witness:
  "''default/a'' \<notin> set (store_ListKeys informer_store [(''default/b'', OfT (Ptr pod_b))]) \<and>
   store_GetByKey informer_store ''default/a'' [(''default/b'', OfT (Ptr pod_b))] =
     Inr (zeroT, False, None) \<and>
   objKey pod_a \<notin> set (store_ListKeys informer_store [(''default/b'', OfT (Ptr pod_b))]) \<and>
   store_Get informer_store (Ptr pod_a) [(''default/b'', OfT (Ptr pod_b))] =
     Inr (zeroT, False, None) \<and>
   cache_GetByKey (Store informer_store) ''default/a'' [(''default/b'', OfT (Ptr pod_b))] =
     (NilInterface, False, None) \<and>
   cache_Get (Store informer_store) (OfT (Ptr pod_a)) [(''default/b'', OfT (Ptr pod_b))] =
     (NilInterface, False, None)"
proof -
  let ?st = "[(''default/b'', OfT (Ptr pod_b))]"
  note t = store_lookup_absent [where key = "''default/a''" and st = ?st and obj = pod_a
      and s = informer_store and key' = "''default/a''" and st' = ?st and t = "Ptr pod_a"
      and exists = False and err = None]
  have a: "''default/a'' \<notin> set (store_ListKeys informer_store ?st)"
    by (simp add: store_ListKeys_def informer_store_simps spec_ListKeys_def)
  have b: "objKey pod_a \<notin> set (store_ListKeys informer_store ?st)"
    by (simp add: store_ListKeys_def informer_store_simps spec_ListKeys_def sample_keys)
  have k: "cache_GetByKey (Store informer_store) ''default/a'' ?st = (NilInterface, False, None)"
    by (simp add: informer_store_simps spec_GetByKey_def)
  have g: "cache_Get (Store informer_store) (OfT (Ptr pod_a)) ?st = (NilInterface, False, None)"
    by (simp add: informer_store_simps spec_Get_def spec_GetByKey_def sample_keys)
  from a t have 1: "store_GetByKey informer_store ''default/a'' ?st = Inr (zeroT, False, None)"
    by blast
  from b t have 2: "store_Get informer_store (Ptr pod_a) ?st = Inr (zeroT, False, None)"
    by blast
  from a 1 b 2 k g show ?thesis by (intro conjI)
qed

section \<open>Properties of the informer\<close>

lemma handler_funcs:
  assumes "Informer_handler (Some h) = Some handler"
  shows "AddFunc handler x hs =
           (case assertT x of Inl p \<Rightarrow> Inl p | Inr t \<Rightarrow> Inr (OnAdd h t hs))"
    and "UpdateFunc handler y x hs =
           (case assertT y of
              Inl p \<Rightarrow> Inl p
            | Inr old \<Rightarrow>
                (case assertT x of Inl p \<Rightarrow> Inl p | Inr new \<Rightarrow> Inr (OnUpdate h old new hs)))"
    and "DeleteFunc handler x hs =
           (case assertT x of Inl p \<Rightarrow> Inl p | Inr t \<Rightarrow> Inr (OnDelete h t hs))"
  using assms by (auto simp: Informer_handler_def)

lemma sample_handler: "Informer_handler (Some recorder) = Some sample_handler"
  by (simp add: sample_handler_def Informer_handler_def)

text \<open>The adapter passes an object of type \<^verbatim>\<open>T\<close> through to the method of \<open>h\<close>,
  unchanged.\<close>

lemma callbacks_pass_through:
  assumes H: "Informer_handler (Some h) = Some handler"
  shows "notify handler (CallAdd (OfT obj)) hs = Inr (OnAdd h obj hs)"
    and "notify handler (CallUpdate (OfT oldObj) (OfT newObj)) hs =
           Inr (OnUpdate h oldObj newObj hs)"
    and "notify handler (CallDelete (OfT obj)) hs = Inr (OnDelete h obj hs)"
  by (simp_all add: handler_funcs [OF H])

text \<open>One mutation, one notification: an upsert of a new key, an upsert of a key that is
  present, the removal of a key that is present.\<close>

lemma dispatch_add:
  assumes H: "Informer_handler (Some h) = Some handler"
    and "objKey new \<notin> set (spec_ListKeys st)"
  shows "dispatch handler (Upsert (OfT (Ptr new))) (st, hs) =
           Inr (None, snd (spec_Add (OfT (Ptr new)) st), OnAdd h (Ptr new) hs)"
  using assms(2)
  by (simp add: dispatch_def spec_Get_Ptr spec_GetByKey_absent spec_Add_def
      handler_funcs [OF H])

lemma dispatch_update:
  assumes H: "Informer_handler (Some h) = Some handler"
    and "map_of st (objKey new) = Some (OfT old)"
  shows "dispatch handler (Upsert (OfT (Ptr new))) (st, hs) =
           Inr (None, snd (spec_Update (OfT (Ptr new)) st), OnUpdate h old (Ptr new) hs)"
  using assms(2)
  by (simp add: dispatch_def spec_Get_Ptr spec_GetByKey_def spec_Update_def
      handler_funcs [OF H])

lemma dispatch_delete:
  assumes H: "Informer_handler (Some h) = Some handler"
    and "map_of st (objKey obj) = Some item"
  shows "dispatch handler (Remove (OfT (Ptr obj))) (st, hs) =
           Inr (None, snd (spec_Delete (OfT (Ptr obj)) st), OnDelete h (Ptr obj) hs)"
  using assms(2)
  by (simp add: dispatch_def spec_Get_Ptr spec_GetByKey_def spec_Delete_def
      handler_funcs [OF H])

text \<open>No mutation, no notification: the removal of a key that is absent, which is no
  error, and an object without a key, which is one.\<close>

lemma dispatch_delete_absent:
  assumes "objKey obj \<notin> set (spec_ListKeys st)"
  shows "dispatch handler (Remove (OfT (Ptr obj))) (st, hs) = Inr (None, st, hs)"
  using assms by (simp add: dispatch_def spec_Get_Ptr spec_GetByKey_absent)

lemma dispatch_keyless:
  assumes "keyFunc x = Inl e"
  shows "dispatch handler (Upsert x) (st, hs) = Inr (Some e, st, hs)"
    and "dispatch handler (Remove x) (st, hs) = Inr (Some e, st, hs)"
  using assms by (simp_all add: dispatch_def spec_Get_def spec_Add_def)

text \<open>An Error event and a malformed event end the stream: the events after them are not
  read. A bookmark, and a Deleted event for a key that is absent, change nothing.\<close>

lemma sync_stream_end:
  "sync handler (Error x # evs) s = Inr s"
  "keyFunc x = Inl e \<Longrightarrow> sync handler (Added x # evs) s = Inr s"
  "keyFunc x = Inl e \<Longrightarrow> sync handler (Modified x # evs) s = Inr s"
  "keyFunc x = Inl e \<Longrightarrow> sync handler (Deleted x # evs) s = Inr s"
  by (simp_all add: reflect_def)

lemma sync_skip:
  "sync handler (Bookmark x # evs) s = sync handler evs s"
  "objKey obj \<notin> set (spec_ListKeys (fst s))
     \<Longrightarrow> sync handler (Deleted (OfT (Ptr obj)) # evs) s = sync handler evs s"
  by (simp_all add: reflect_def)

text \<open>A relist that returns leaves the store that \<^verbatim>\<open>Replace\<close> leaves, and a resync leaves
  the store as it was.\<close>

lemma relist_store:
  assumes "relist gone handler items resourceVersion (st, hs) = Inr (st', hs')"
  shows "st' = snd (spec_Replace items resourceVersion st)"
proof (cases "keyFunc_all items")
  case (Inl e)
  with assms show ?thesis by (simp add: relist_def spec_Replace_def)
next
  case (Inr ks)
  with assms show ?thesis by (auto simp: relist_def spec_Replace_def split: sum.splits)
qed

lemma resync_store:
  assumes "resync handler (st, hs) = Inr (st', hs')"
  shows "st' = st"
  using assms by (auto simp: resync_def spec_Resync_def split: sum.splits)

text \<open>The delete callback on what the loop hands it for an implicit delete: the entry
  that the store held is passed on to \<^verbatim>\<open>h.OnDelete\<close>; on the marker the type assertion
  \<^verbatim>\<open>obj.(T)\<close> panics and \<^verbatim>\<open>h.OnDelete\<close> is not called.\<close>

lemma implicit_delete_last_known:
  assumes H: "Informer_handler (Some h) = Some handler"
  shows "notify handler (CallDelete (last_known key (OfT obj))) hs = Inr (OnDelete h obj hs)"
  by (simp add: last_known_def handler_funcs [OF H])

lemma implicit_delete_tombstone:
  assumes H: "Informer_handler (Some h) = Some handler"
  shows "notify handler (CallDelete (tombstone key item)) hs = Inl InterfaceConversion"
  by (simp add: tombstone_def handler_funcs [OF H])

lemmas sample_eval =
  dispatch_def reflect_def relist_def resync_def omitted_def last_known_def tombstone_def
  sample_handler_def Informer_handler_def recorder_def
  spec_Get_def spec_GetByKey_def spec_Add_def spec_Update_def spec_Delete_def
  spec_Replace_def spec_Resync_def spec_List_def spec_ListKeys_def sample_keys

text \<open>The example of the spec (8): a snapshot of A and B, then Modified(A), then
  Deleted(B).\<close>

lemma sample_run:
  "sync_loop last_known sample_handler
     [Relisting [OfT (Ptr pod_a), OfT (Ptr pod_b)] ''11'',
      Watching [Modified (OfT (Ptr pod_a2)), Deleted (OfT (Ptr pod_b))]] ([], []) =
   Inr ([(''default/a'', OfT (Ptr pod_a2))],
        [CalledOnAdd (Ptr pod_a), CalledOnAdd (Ptr pod_b),
         CalledOnUpdate (Ptr pod_a) (Ptr pod_a2), CalledOnDelete (Ptr pod_b)])"
  by (simp add: sample_eval)

text \<open>A relist whose snapshot omits B, where the loop hands over the entry that the store
  held: the store no longer holds B and \<^verbatim>\<open>OnDelete(B)\<close> is called once.\<close>

lemma sample_relist:
  "relist last_known sample_handler [OfT (Ptr pod_a2)] ''12''
     ([(''default/a'', OfT (Ptr pod_a)), (''default/b'', OfT (Ptr pod_b))], []) =
   Inr ([(''default/a'', OfT (Ptr pod_a2))],
        [CalledOnUpdate (Ptr pod_a) (Ptr pod_a2), CalledOnDelete (Ptr pod_b)])"
  by (simp add: sample_eval)

lemma sample_resync:
  "resync sample_handler
     ([(''default/a'', OfT (Ptr pod_a)), (''default/b'', OfT (Ptr pod_b))], []) =
   Inr ([(''default/a'', OfT (Ptr pod_a)), (''default/b'', OfT (Ptr pod_b))],
        [CalledOnUpdate (Ptr pod_a) (Ptr pod_a), CalledOnUpdate (Ptr pod_b) (Ptr pod_b)])"
  by (simp add: sample_eval)

text \<open>
  C3. The claim does not hold for the implicit deletes of a relist. The delete callback
  that \<^verbatim>\<open>Informer\<close> installs is \<^verbatim>\<open>func(obj interface{}) { h.OnDelete(obj.(T)) }\<close>
  (cache/informer.go, lines 123 to 125). The store holds A and B, the snapshot of a
  relist omits B, and the loop reports B to the delete callback by a
  \<^verbatim>\<open>cache.DeletedFinalStateUnknown\<close>: the type assertion panics, \<^verbatim>\<open>h.OnDelete\<close> is not
  called for B and the loop ends, where the claim has exactly one \<^verbatim>\<open>OnDelete\<close> for the key
  removed. The handler has received \<^verbatim>\<open>OnUpdate\<close> for A and nothing for B.
\<close>

theorem implicit_delete_panics:
  "DeleteFunc sample_handler (tombstone ''default/b'' (OfT (Ptr pod_b)))
     [CalledOnUpdate (Ptr pod_a) (Ptr pod_a2)] = Inl InterfaceConversion \<and>
   relist tombstone sample_handler [OfT (Ptr pod_a2)] ''12''
     ([(''default/a'', OfT (Ptr pod_a)), (''default/b'', OfT (Ptr pod_b))], []) =
   Inl InterfaceConversion \<and>
   sync_loop tombstone sample_handler
     [Relisting [OfT (Ptr pod_a), OfT (Ptr pod_b)] ''11'',
      Watching [Modified (OfT (Ptr pod_a2)), Error NilInterface],
      Relisting [OfT (Ptr pod_a2)] ''12''] ([], []) =
   Inl InterfaceConversion"
  by (simp add: sample_eval)

lemma map_of_update_same: "map_of (AList.update k v st) k = Some v"
  by (simp add: update_conv')

lemma reflect_upsert:
  "reflect (Added (OfT (Ptr obj))) st = Apply (Upsert (OfT (Ptr obj)))"
  "reflect (Modified (OfT (Ptr obj))) st = Apply (Upsert (OfT (Ptr obj)))"
  by (simp_all add: reflect_def)

lemma sync_Added_Modified: "sync handler (Added x # evs) s = sync handler (Modified x # evs) s"
  by (simp add: reflect_def)

lemma sync_twice:
  assumes H: "Informer_handler (Some h) = Some handler"
    and s: "sync handler [Added (OfT (Ptr obj)), Added (OfT (Ptr obj))] (st, hs) = Inr (st2, hs2)"
  shows "st2 = snd (spec_Add (OfT (Ptr obj)) st) \<and>
         (\<exists>c. hs2 = OnUpdate h (Ptr obj) (Ptr obj) (deliver h c hs) \<and>
              (if objKey obj \<in> set (spec_ListKeys st)
               then \<exists>old. c = CalledOnUpdate old (Ptr obj)
               else c = CalledOnAdd (Ptr obj)))"
proof -
  let ?x = "OfT (Ptr obj)"
  let ?st1 = "AList.update (objKey obj) ?x st"
  have ok: "eo = None \<and> st' = AList.update (objKey obj) ?x st0"
    if "dispatch handler (Upsert ?x) (st0, hs0) = Inr (eo, st', hs')" for st0 hs0 eo st' hs'
    using that
    by (auto simp: dispatch_def spec_Get_def spec_Add_def spec_Update_def
        split: prod.splits if_splits sum.splits)
  from s obtain eo st1 hs1 where
    d1': "dispatch handler (Upsert ?x) (st, hs) = Inr (eo, st1, hs1)"
    by (cases "dispatch handler (Upsert ?x) (st, hs)") (auto simp: reflect_upsert)
  from ok [OF d1'] d1' have st1: "st1 = ?st1"
    and d1: "dispatch handler (Upsert ?x) (st, hs) = Inr (None, st1, hs1)"
    by simp_all
  from s d1 have s2: "sync handler [Added ?x] (st1, hs1) = Inr (st2, hs2)"
    by (simp add: reflect_upsert)
  then obtain eo2 st2' hs2' where
    d2': "dispatch handler (Upsert ?x) (st1, hs1) = Inr (eo2, st2', hs2')"
    by (cases "dispatch handler (Upsert ?x) (st1, hs1)") (auto simp: reflect_upsert)
  from ok [OF d2'] s2 d2'
  have d2: "dispatch handler (Upsert ?x) (st1, hs1) = Inr (None, st2, hs2)"
    by (simp add: reflect_upsert)
  have "map_of st1 (objKey obj) = Some ?x"
    unfolding st1 by (rule map_of_update_same)
  from dispatch_update [OF H this, of hs1] d2
  have 2: "st2 = ?st1" "hs2 = OnUpdate h (Ptr obj) (Ptr obj) hs1"
    by (simp_all add: spec_Update_def st1)
  have c: "\<exists>c. hs1 = deliver h c hs \<and>
              (if objKey obj \<in> set (spec_ListKeys st)
               then \<exists>old. c = CalledOnUpdate old (Ptr obj)
               else c = CalledOnAdd (Ptr obj))"
  proof (cases "objKey obj \<in> set (spec_ListKeys st)")
    case False
    with dispatch_add [OF H, of obj st hs] d1
    have "hs1 = deliver h (CalledOnAdd (Ptr obj)) hs"
      by simp
    with False show ?thesis by simp
  next
    case True
    then obtain v where v: "map_of st (objKey obj) = Some v"
      by (cases "map_of st (objKey obj)") (auto simp: spec_ListKeys_def map_of_eq_None_iff)
    with d1 obtain old where "assertT v = Inr old" "hs1 = OnUpdate h old (Ptr obj) hs"
      by (auto simp: dispatch_def spec_Get_Ptr spec_GetByKey_def spec_Update_def
          handler_funcs [OF H] split: sum.splits)
    then have "hs1 = deliver h (CalledOnUpdate old (Ptr obj)) hs"
      by simp
    then have "\<exists>c. hs1 = deliver h c hs \<and> (\<exists>old'. c = CalledOnUpdate old' (Ptr obj))"
      by blast
    with True show ?thesis by simp
  qed
  from 2 c show ?thesis by (auto simp: spec_Add_def)
qed

text \<open>
  C1. \<^verbatim>\<open>Add(obj)\<close> applied to the result of \<^verbatim>\<open>Add(obj)\<close> returns the same error and
  leaves the same state as one \<^verbatim>\<open>Add(obj)\<close>, for every state and object, and so does
  \<^verbatim>\<open>Update\<close>. The sync loop treats an Added event as it treats a Modified event of the same
  object. Two Added events of one object in succession, with a registered handler \<open>h\<close>,
  leave the store as one \<^verbatim>\<open>Add\<close> does; the second is notified by \<^verbatim>\<open>OnUpdate(obj, obj)\<close> and
  the first by \<^verbatim>\<open>OnAdd(obj)\<close> when the key was new and by \<^verbatim>\<open>OnUpdate(old, obj)\<close> when it
  was present: \<^verbatim>\<open>OnAdd\<close> is never called twice.
\<close>

theorem idempotent_upsert:
  assumes H: "Informer_handler (Some h) = Some handler"
  shows "store_Add informer_store x (snd (store_Add informer_store x st)) =
           store_Add informer_store x st \<and>
         store_Update informer_store x (snd (store_Update informer_store x st)) =
           store_Update informer_store x st \<and>
         sync handler (Added y # evs) s = sync handler (Modified y # evs) s \<and>
         (sync handler [Added (OfT (Ptr obj)), Added (OfT (Ptr obj))] (st, hs) = Inr (st2, hs2)
            \<longrightarrow>
            st2 = snd (store_Add informer_store (Ptr obj) st) \<and>
            (\<exists>c. hs2 = OnUpdate h (Ptr obj) (Ptr obj) (deliver h c hs) \<and>
                 (if objKey obj \<in> set (store_ListKeys informer_store st)
                  then \<exists>old. c = CalledOnUpdate old (Ptr obj)
                  else c = CalledOnAdd (Ptr obj))))"
  using sync_twice [OF H, of obj st hs st2 hs2] sync_Added_Modified [of handler y evs s]
  by (simp add: store_Add_def store_Update_def store_ListKeys_def informer_store_simps
      spec_Add_twice spec_Update_twice)

theorem idempotent_upsert_witness:
  "Informer_handler (Some recorder) = Some sample_handler \<and>
   sync sample_handler [Added (OfT (Ptr pod_a)), Added (OfT (Ptr pod_a))] ([], []) =
     Inr ([(''default/a'', OfT (Ptr pod_a))],
          [CalledOnAdd (Ptr pod_a), CalledOnUpdate (Ptr pod_a) (Ptr pod_a)]) \<and>
   [(''default/a'', OfT (Ptr pod_a))] = snd (store_Add informer_store (Ptr pod_a) []) \<and>
   (\<exists>c. [CalledOnAdd (Ptr pod_a), CalledOnUpdate (Ptr pod_a) (Ptr pod_a)] =
           OnUpdate recorder (Ptr pod_a) (Ptr pod_a) (deliver recorder c []) \<and>
        (if objKey pod_a \<in> set (store_ListKeys informer_store [])
         then \<exists>old. c = CalledOnUpdate old (Ptr pod_a)
         else c = CalledOnAdd (Ptr pod_a)))"
proof -
  note H = sample_handler
  have run:
    "sync sample_handler [Added (OfT (Ptr pod_a)), Added (OfT (Ptr pod_a))] ([], []) =
       Inr ([(''default/a'', OfT (Ptr pod_a))],
            [CalledOnAdd (Ptr pod_a), CalledOnUpdate (Ptr pod_a) (Ptr pod_a)])"
    by (simp add: sample_eval)
  from run idempotent_upsert [OF H, where obj = pod_a and st = "[]" and hs = "[]"
      and ?st2.0 = "[(''default/a'', OfT (Ptr pod_a))]"
      and ?hs2.0 = "[CalledOnAdd (Ptr pod_a), CalledOnUpdate (Ptr pod_a) (Ptr pod_a)]"]
  have c: "[(''default/a'', OfT (Ptr pod_a))] = snd (store_Add informer_store (Ptr pod_a) []) \<and>
   (\<exists>c. [CalledOnAdd (Ptr pod_a), CalledOnUpdate (Ptr pod_a) (Ptr pod_a)] =
           OnUpdate recorder (Ptr pod_a) (Ptr pod_a) (deliver recorder c []) \<and>
        (if objKey pod_a \<in> set (store_ListKeys informer_store [])
         then \<exists>old. c = CalledOnUpdate old (Ptr pod_a)
         else c = CalledOnAdd (Ptr pod_a)))"
    by blast
  from H run c show ?thesis
    by (intro conjI) blast+
qed

section \<open>Properties of the client\<close>

lemmas builder_defs =
  chain_def rest_Get_def rest_Post_def rest_Put_def rest_Delete_def rest_Patch_def

lemmas req_defs =
  req_Get_def req_List_def req_Watch_def req_Create_def req_Update_def req_UpdateStatus_def
  req_Delete_def req_DeleteCollection_def req_Patch_def

lemma Into_T_err: "res_err res = Some e \<Longrightarrow> snd (Into_T res result) = Some e"
  by (simp add: Into_T_def)

lemma Into_L_err: "res_err res = Some e \<Longrightarrow> snd (Into_L res result) = Some e"
  by (simp add: Into_L_def)

lemma DoWatch_err:
  "res_err (roundTrip rc sent r) = Some e \<Longrightarrow> snd (fst (DoWatch rc ctx r sent)) = Some e"
  by (simp add: DoWatch_def Let_def)

lemma DoWatch_sent: "snd (DoWatch rc ctx r sent) = sent @ [r]"
  by (simp add: DoWatch_def Let_def)

lemma invoke_request:
  assumes "request_of c call = Inr r"
  shows "\<exists>err. invoke c ctx call sent = Inr (err, sent @ [r]) \<and>
           (\<forall>e. res_err (roundTrip (restClient c) sent r) = Some e \<longrightarrow> err = Some e)"
proof (cases call)
  case (Call_Get name options)
  with assms show ?thesis
    by (simp add: client_Get_def Do_def Let_def split_beta Into_T_err)
next
  case (Call_List opts)
  with assms show ?thesis
    by (simp add: client_List_def Do_def Let_def split_beta Into_L_err)
next
  case (Call_Watch opts)
  with assms show ?thesis
    by (simp add: client_Watch_def split_beta DoWatch_err DoWatch_sent)
next
  case (Call_Create cr opts)
  with assms show ?thesis
    by (simp add: client_Create_def Do_def Let_def split_beta Into_T_err)
next
  case (Call_Update cr opts)
  with assms show ?thesis
    by (cases "GetName_of cr")
      (simp_all add: client_Update_def Do_def Let_def split_beta Into_T_err)
next
  case (Call_UpdateStatus cr opts)
  with assms show ?thesis
    by (cases "GetName_of cr")
      (simp_all add: client_UpdateStatus_def Do_def Let_def split_beta Into_T_err)
next
  case (Call_Delete name opts)
  with assms show ?thesis
    by (simp add: client_Delete_def Do_def Let_def split_beta Error_of_def)
next
  case (Call_DeleteCollection opts listOpts)
  with assms show ?thesis
    by (simp add: client_DeleteCollection_def Do_def Let_def split_beta Error_of_def)
next
  case (Call_Patch name pt data opts subresources)
  with assms show ?thesis
    by (simp add: client_Patch_def Do_def Let_def split_beta Into_T_err)
qed

lemma invoke_panic: "request_of c call = Inl p \<Longrightarrow> invoke c ctx call sent = Inl p"
  by (cases call) (auto simp: client_Update_def client_UpdateStatus_def split: sum.splits)

lemma request_of_total:
  "(\<exists>r. request_of c call = Inr r) \<longleftrightarrow>
     (\<forall>opts. call \<noteq> Call_Update NilPtr opts \<and> call \<noteq> Call_UpdateStatus NilPtr opts)"
  by (cases call) (auto simp: GetName_of_def split: ptr.splits)

lemma invoke_returns:
  assumes "invoke c ctx call sent = Inr (err, sent')"
  shows "\<exists>r. request_of c call = Inr r \<and> sent' = sent @ [r] \<and>
           (\<forall>e. res_err (roundTrip (restClient c) sent r) = Some e \<longrightarrow> err = Some e)"
proof (cases "request_of c call")
  case (Inl p)
  with assms invoke_panic [of c call p ctx sent] show ?thesis by simp
next
  case (Inr r)
  from invoke_request [OF Inr, of ctx sent] assms
  have "sent' = sent @ [r] \<and>
        (\<forall>e. res_err (roundTrip (restClient c) sent r) = Some e \<longrightarrow> err = Some e)"
    by auto
  with Inr show ?thesis by simp
qed

lemma request_of_binding:
  "request_of c call = Inr r \<Longrightarrow>
     namespaces (r_calls r) = [ns c] \<and> resources (r_calls r) = [resource c]"
  by (cases call) (auto simp: req_defs builder_defs Let_def split: sum.splits)

lemma invoke_all_requests:
  "invoke_all c ctx calls sent = Inr sent' \<Longrightarrow>
     \<exists>new. sent' = sent @ new \<and> length new = length calls \<and>
       (\<forall>r\<in>set new. namespaces (r_calls r) = [ns c] \<and> resources (r_calls r) = [resource c])"
proof (induction calls arbitrary: sent)
  case Nil
  then show ?case by simp
next
  case (Cons call calls)
  from Cons.prems obtain err sent1 where
    i: "invoke c ctx call sent = Inr (err, sent1)"
    and rest: "invoke_all c ctx calls sent1 = Inr sent'"
    by (auto split: sum.splits)
  from invoke_returns [OF i] obtain r where
    r: "request_of c call = Inr r" and sent1: "sent1 = sent @ [r]"
    by blast
  from Cons.IH [OF rest] obtain new where
    new: "sent' = sent1 @ new" "length new = length calls"
      "\<forall>r\<in>set new. namespaces (r_calls r) = [ns c] \<and> resources (r_calls r) = [resource c]"
    by blast
  have "sent' = sent @ (r # new) \<and> length (r # new) = length (call # calls) \<and>
        (\<forall>r\<in>set (r # new).
            namespaces (r_calls r) = [ns c] \<and> resources (r_calls r) = [resource c])"
    using new sent1 request_of_binding [OF r] by simp
  then show ?case by blast
qed

text \<open>
  C5. Whenever a call of one of the nine methods returns, it has handed exactly one
  request to the transport, the request the method builds, whatever was sent before and
  whatever the transport answers; and when the transport's result carries an error, the
  method returns that error. Every call returns, but \<^verbatim>\<open>Update\<close> and \<^verbatim>\<open>UpdateStatus\<close> of a
  nil object, where \<^verbatim>\<open>cr.GetName()\<close> dereferences nil before a request exists.
\<close>

theorem single_request_error_unchanged:
  "(invoke c ctx call sent = Inr (err, sent') \<longrightarrow>
      (\<exists>r. request_of c call = Inr r \<and> sent' = sent @ [r] \<and>
           (\<forall>e. res_err (roundTrip (restClient c) sent r) = Some e \<longrightarrow> err = Some e))) \<and>
   ((\<forall>opts. call \<noteq> Call_Update NilPtr opts \<and> call \<noteq> Call_UpdateStatus NilPtr opts) \<longrightarrow>
      (\<exists>err r. invoke c ctx call sent = Inr (err, sent @ [r])))"
proof (intro conjI impI)
  assume "invoke c ctx call sent = Inr (err, sent')"
  then show "\<exists>r. request_of c call = Inr r \<and> sent' = sent @ [r] \<and>
      (\<forall>e. res_err (roundTrip (restClient c) sent r) = Some e \<longrightarrow> err = Some e)"
    by (rule invoke_returns)
next
  assume "\<forall>opts. call \<noteq> Call_Update NilPtr opts \<and> call \<noteq> Call_UpdateStatus NilPtr opts"
  then obtain r where "request_of c call = Inr r"
    using request_of_total [of c call] by blast
  from invoke_request [OF this, of ctx sent]
  show "\<exists>err r. invoke c ctx call sent = Inr (err, sent @ [r])"
    by blast
qed

theorem single_request_error_unchanged_witness:
  "invoke pods ''ctx'' (Call_Get ''missing'' \<lparr>get_ResourceVersion = []\<rparr>) [] =
     Inr (Some ErrNotFound, [req_Get pods ''missing'' \<lparr>get_ResourceVersion = []\<rparr>]) \<and>
   (\<exists>r. request_of pods (Call_Get ''missing'' \<lparr>get_ResourceVersion = []\<rparr>) = Inr r \<and>
        [req_Get pods ''missing'' \<lparr>get_ResourceVersion = []\<rparr>] = [] @ [r] \<and>
        (\<forall>e. res_err (roundTrip (restClient pods) [] r) = Some e \<longrightarrow> Some ErrNotFound = Some e)) \<and>
   (\<forall>opts. Call_Get ''missing'' \<lparr>get_ResourceVersion = []\<rparr> \<noteq> Call_Update NilPtr opts \<and>
           Call_Get ''missing'' \<lparr>get_ResourceVersion = []\<rparr> \<noteq> Call_UpdateStatus NilPtr opts) \<and>
   (\<exists>err r. invoke pods ''ctx'' (Call_Get ''missing'' \<lparr>get_ResourceVersion = []\<rparr>) [] =
        Inr (err, [] @ [r]))"
proof -
  let ?call = "Call_Get ''missing'' \<lparr>get_ResourceVersion = []\<rparr>"
  let ?r = "req_Get pods ''missing'' \<lparr>get_ResourceVersion = []\<rparr>"
  have run: "invoke pods ''ctx'' ?call [] = Inr (Some ErrNotFound, [?r])"
    by (simp add: client_Get_def Do_def Into_T_def pods_def NewClient_def
        sample_transport_def req_Get_def builder_defs)
  have other: "\<forall>opts. ?call \<noteq> Call_Update NilPtr opts \<and> ?call \<noteq> Call_UpdateStatus NilPtr opts"
    by simp
  note t = single_request_error_unchanged [where c = pods and ctx = "''ctx''"
      and call = ?call and sent = "[]" and err = "Some ErrNotFound" and sent' = "[?r]"]
  from t run have 1: "\<exists>r. request_of pods ?call = Inr r \<and> [?r] = [] @ [r] \<and>
        (\<forall>e. res_err (roundTrip (restClient pods) [] r) = Some e \<longrightarrow> Some ErrNotFound = Some e)"
    by blast
  from t other have 2: "\<exists>err r. invoke pods ''ctx'' ?call [] = Inr (err, [] @ [r])"
    by blast
  from run 1 other 2 show ?thesis
    by (intro conjI)
qed

text \<open>
  C6. For a client made by \<^verbatim>\<open>NewClient(scheme, parameterCodec, restClient, resource,
  namespace)\<close>, the request of every call of the nine methods is built with exactly one
  call of \<^verbatim>\<open>Namespace\<close>, with \<open>namespace\<close>, and exactly one call of \<^verbatim>\<open>Resource\<close>, with
  \<open>resource\<close>; so is every request of any sequence of calls on that client, one request
  per call. The methods read the client and never assign to it, so the same instance
  serves every call of the sequence.
\<close>

theorem client_binding:
  "c = NewClient scheme' codec rest_client resource' namespace t_elem l_elem \<Longrightarrow>
     (request_of c call = Inr r \<longrightarrow>
        namespaces (r_calls r) = [namespace] \<and> resources (r_calls r) = [resource']) \<and>
     (invoke_all c ctx calls sent = Inr sent' \<longrightarrow>
        (\<exists>new. sent' = sent @ new \<and> length new = length calls \<and>
           (\<forall>r\<in>set new.
               namespaces (r_calls r) = [namespace] \<and> resources (r_calls r) = [resource'])))"
  using request_of_binding [of c call r] invoke_all_requests [of c ctx calls sent sent']
  by (simp add: NewClient_def)

theorem client_binding_witness:
  "pods =
     NewClient ''scheme'' ''codec'' sample_transport ''pods'' ''default'' ''Pod'' ''PodList'' \<and>
   request_of pods (Call_Watch sample_options) = Inr (req_Watch pods sample_options) \<and>
   namespaces (r_calls (req_Watch pods sample_options)) = [''default''] \<and>
   resources (r_calls (req_Watch pods sample_options)) = [''pods''] \<and>
   invoke_all pods ''ctx''
       [Call_Delete ''a'' \<lparr>GracePeriodSeconds = None, delete_DryRun = []\<rparr>,
        Call_Watch sample_options] [] =
     Inr [req_Delete pods ''a'' \<lparr>GracePeriodSeconds = None, delete_DryRun = []\<rparr>,
          req_Watch pods sample_options] \<and>
   (\<exists>new. [req_Delete pods ''a'' \<lparr>GracePeriodSeconds = None, delete_DryRun = []\<rparr>,
           req_Watch pods sample_options] = [] @ new \<and>
          length new =
            length [Call_Delete ''a'' \<lparr>GracePeriodSeconds = None, delete_DryRun = []\<rparr>,
                    Call_Watch sample_options] \<and>
          (\<forall>r\<in>set new.
              namespaces (r_calls r) = [''default''] \<and> resources (r_calls r) = [''pods'']))"
proof -
  let ?calls = "[Call_Delete ''a'' \<lparr>GracePeriodSeconds = None, delete_DryRun = []\<rparr>,
                 Call_Watch sample_options]"
  let ?reqs = "[req_Delete pods ''a'' \<lparr>GracePeriodSeconds = None, delete_DryRun = []\<rparr>,
                req_Watch pods sample_options]"
  note c = pods_def
  have r: "request_of pods (Call_Watch sample_options) = Inr (req_Watch pods sample_options)"
    by simp
  have run: "invoke_all pods ''ctx'' ?calls [] = Inr ?reqs"
    by (simp add: client_Delete_def client_Watch_def Do_def DoWatch_def Let_def split_beta)
  note t = client_binding [OF c, where ctx = "''ctx''" and sent = "[]"
      and call = "Call_Watch sample_options" and r = "req_Watch pods sample_options"
      and calls = ?calls and sent' = ?reqs]
  from t r have 1: "namespaces (r_calls (req_Watch pods sample_options)) = [''default'']"
    and 2: "resources (r_calls (req_Watch pods sample_options)) = [''pods'']"
    by blast+
  from t run have 3: "\<exists>new. ?reqs = [] @ new \<and> length new = length ?calls \<and>
          (\<forall>r\<in>set new.
              namespaces (r_calls r) = [''default''] \<and> resources (r_calls r) = [''pods''])"
    by blast
  from c r 1 2 run 3 show ?thesis by (intro conjI)
qed

text \<open>
  C7. \<^verbatim>\<open>List\<close> and \<^verbatim>\<open>Watch\<close> send the caller's label selector, field selector and
  \<^verbatim>\<open>TimeoutSeconds\<close>, and the caller's resource version and limit, as the caller gave
  them, and both set the timeout of the request from the caller's \<^verbatim>\<open>TimeoutSeconds\<close>.
  \<^verbatim>\<open>List\<close> hands the caller's \<^verbatim>\<open>ListOptions\<close> to the transport as they are: they are the
  one argument of \<^verbatim>\<open>VersionedParams\<close> of its request. \<^verbatim>\<open>Watch\<close> hands them over with the
  flag \<^verbatim>\<open>Watch\<close>, which makes the request a watch, set to true and every other field as
  it is. Both hand their request to the transport once. The \<^verbatim>\<open>ListFunc\<close> and \<^verbatim>\<open>WatchFunc\<close>
  of \<^verbatim>\<open>Informer\<close> call \<^verbatim>\<open>List\<close> and \<^verbatim>\<open>Watch\<close> with the options they receive when
  \<^verbatim>\<open>optionsModifier\<close> is nil, and with what the caller's \<^verbatim>\<open>optionsModifier\<close> makes of them
  otherwise.
\<close>

theorem options_forwarded:
  "versioned_params (r_calls (req_List c opts)) = [ListParams opts] \<and>
   versioned_params (r_calls (req_Watch c opts)) = [ListParams (opts\<lparr>Watch := True\<rparr>)] \<and>
   timeouts (r_calls (req_List c opts)) = [timeout_of opts] \<and>
   timeouts (r_calls (req_Watch c opts)) = [timeout_of opts] \<and>
   snd (client_List c ctx opts sent) = sent @ [req_List c opts] \<and>
   snd (client_Watch c ctx opts sent) = sent @ [req_Watch c opts] \<and>
   Informer_ListFunc ctx c None opts sent = client_List c ctx opts sent \<and>
   Informer_WatchFunc ctx c None opts sent = client_Watch c ctx opts sent \<and>
   Informer_ListFunc ctx c (Some modify) opts sent = client_List c ctx (modify opts) sent \<and>
   Informer_WatchFunc ctx c (Some modify) opts sent = client_Watch c ctx (modify opts) sent \<and>
   map LabelSelector (list_options (versioned_params (r_calls (req_List c opts)))) =
     [LabelSelector opts] \<and>
   map FieldSelector (list_options (versioned_params (r_calls (req_List c opts)))) =
     [FieldSelector opts] \<and>
   map TimeoutSeconds (list_options (versioned_params (r_calls (req_List c opts)))) =
     [TimeoutSeconds opts] \<and>
   map ResourceVersion (list_options (versioned_params (r_calls (req_List c opts)))) =
     [ResourceVersion opts] \<and>
   map Limit (list_options (versioned_params (r_calls (req_List c opts)))) = [Limit opts] \<and>
   map LabelSelector (list_options (versioned_params (r_calls (req_Watch c opts)))) =
     [LabelSelector opts] \<and>
   map FieldSelector (list_options (versioned_params (r_calls (req_Watch c opts)))) =
     [FieldSelector opts] \<and>
   map TimeoutSeconds (list_options (versioned_params (r_calls (req_Watch c opts)))) =
     [TimeoutSeconds opts] \<and>
   map ResourceVersion (list_options (versioned_params (r_calls (req_Watch c opts)))) =
     [ResourceVersion opts] \<and>
   map Limit (list_options (versioned_params (r_calls (req_Watch c opts)))) = [Limit opts]"
  by (simp add: req_List_def req_Watch_def builder_defs client_List_def client_Watch_def
      Do_def DoWatch_def Informer_ListFunc_def Informer_WatchFunc_def Let_def
      split: prod.splits)

section \<open>The handler of an informer\<close>

lemma store_step_controller: "ss_controller (store_step call ss) = ss_controller ss"
  by (cases call) simp_all

lemma store_steps_controller: "ss_controller (fold store_step calls ss) = ss_controller ss"
  by (induction calls arbitrary: ss) (simp_all add: store_step_controller)

text \<open>With a nil \<open>h\<close> the handler that \<^verbatim>\<open>Informer\<close> hands to \<^verbatim>\<open>cache.NewInformer\<close> is
  nil: no callbacks are installed.\<close>

lemma Informer_nil_handler:
  "Informer cache_NewInformer ctx c resyncPeriod None optionsModifier =
     (\<lparr> Store = fst (cache_NewInformer (Informer_ListWatch ctx c optionsModifier)
                        (Ptr zeroObject) resyncPeriod None) \<rparr>,
      snd (cache_NewInformer (Informer_ListWatch ctx c optionsModifier)
             (Ptr zeroObject) resyncPeriod None))"
  by (simp add: Informer_def Informer_handler_def Let_def split_beta)

text \<open>
  C8, as amended. The handler of an informer is the argument \<open>h\<close> of \<^verbatim>\<open>Informer\<close>: the
  callbacks made from it, or none when \<open>h\<close> is nil, are handed to \<^verbatim>\<open>cache.NewInformer\<close>
  when the informer is constructed, and \<^verbatim>\<open>Informer\<close> returns the store and the controller
  that \<^verbatim>\<open>cache.NewInformer\<close> returns. No sequence of calls of the methods of the returned
  \<^verbatim>\<open>Store[T]\<close> changes the controller, and so none adds, removes or replaces the handler.
\<close>

theorem handler_fixed_at_construction:
  "Informer cache_NewInformer ctx c resyncPeriod h optionsModifier =
     (\<lparr> Store = fst (cache_NewInformer (Informer_ListWatch ctx c optionsModifier)
                        (Ptr zeroObject) resyncPeriod (Informer_handler h)) \<rparr>,
      snd (cache_NewInformer (Informer_ListWatch ctx c optionsModifier)
             (Ptr zeroObject) resyncPeriod (Informer_handler h))) \<and>
   (Informer_handler h = None) = (h = None) \<and>
   ss_controller (fold store_step calls ss) = ss_controller ss \<and>
   ss_controller (fold store_step calls
      (start (Informer cache_NewInformer ctx c resyncPeriod h optionsModifier) st)) =
     snd (cache_NewInformer (Informer_ListWatch ctx c optionsModifier)
            (Ptr zeroObject) resyncPeriod (Informer_handler h))"
proof -
  have nil: "(Informer_handler h = None) = (h = None)"
    by (simp add: Informer_handler_def split: option.splits)
  show ?thesis
    by (simp add: nil store_steps_controller start_def Informer_def Let_def split_beta)
qed

text \<open>The claim as stated fails: an informer started without a handler has none after
  any call, and one started with a handler keeps it after any call.\<close>

theorem handler_registration_counterexample:
  "\<not> (\<exists>call.
        ctl_handler (ss_controller (store_step call
          (start (Informer NewInformer ''ctx'' pods 0
             (None :: notification list ResourceEventHandler option) None) []))) \<noteq> None) \<and>
   \<not> (\<exists>call.
        ctl_handler (ss_controller (store_step call
          (start (Informer NewInformer ''ctx'' pods 0 (Some recorder) None) []))) = None)"
  by (simp add: store_step_controller start_def Informer_def NewInformer_def
      Informer_handler_def)


section \<open>Further properties of the wrapper, the callbacks and the timeout\<close>

text \<open>\<^verbatim>\<open>List\<close> returns exactly when every item of the embedded store has the dynamic type
  \<^verbatim>\<open>T\<close>, and then returns those items in the order of the embedded store; it panics
  otherwise.\<close>

lemma assertT_all_Inr: "assertT_all xs = Inr l \<longleftrightarrow> xs = map OfT l"
proof (induction xs arbitrary: l)
  case Nil
  show ?case by auto
next
  case (Cons x xs)
  show ?case
  proof (cases x)
    case (OfT t)
    show ?thesis
    proof
      assume "assertT_all (x # xs) = Inr l"
      with OfT obtain ts where ts: "assertT_all xs = Inr ts" and l: "l = t # ts"
        by (auto split: sum.splits)
      from ts have "xs = map OfT ts"
        by (rule Cons.IH [THEN iffD1])
      with OfT l show "x # xs = map OfT l"
        by simp
    next
      assume "x # xs = map OfT l"
      with OfT obtain ts where l: "l = t # ts" and xs: "xs = map OfT ts"
        by (cases l) auto
      from xs have "assertT_all xs = Inr ts"
        by (rule Cons.IH [THEN iffD2])
      with OfT l show "assertT_all (x # xs) = Inr l"
        by simp
    qed
  next
    case NilInterface
    then show ?thesis by (cases l) auto
  next
    case (OfOther d)
    then show ?thesis by (cases l) auto
  qed
qed

lemma assertT_all_Inl: "(\<exists>p. assertT_all xs = Inl p) \<longleftrightarrow> (\<exists>x\<in>set xs. \<not> is_T x)"
proof (induction xs)
  case Nil
  then show ?case by simp
next
  case (Cons x xs)
  then show ?case
    by (cases x; cases "assertT_all xs") auto
qed

lemma store_List_returns:
  "(store_List s st = Inr l \<longleftrightarrow> cache_List (Store s) st = map OfT l) \<and>
   ((\<exists>p. store_List s st = Inl p) \<longleftrightarrow> (\<exists>x\<in>set (cache_List (Store s) st). \<not> is_T x))"
  by (simp add: store_List_def assertT_all_Inr assertT_all_Inl)

text \<open>The callbacks that \<^verbatim>\<open>Informer\<close> installs panic on an object that is not of type
  \<^verbatim>\<open>T\<close>, and then do not call the handler.\<close>

lemma callbacks_panic_on_other_type:
  assumes "Informer_handler (Some h) = Some handler" and "\<not> is_T x"
  shows "AddFunc handler x hs = Inl InterfaceConversion \<and>
         DeleteFunc handler x hs = Inl InterfaceConversion \<and>
         UpdateFunc handler x y hs = Inl InterfaceConversion \<and>
         UpdateFunc handler y x hs = Inl InterfaceConversion"
  using assms(2) by (cases x; cases y) (simp_all add: handler_funcs [OF assms(1)])

text \<open>The timeout of a request is the caller's \<^verbatim>\<open>TimeoutSeconds\<close> in nanoseconds as long
  as the product fits into an \<^verbatim>\<open>int64\<close>, and zero without \<^verbatim>\<open>TimeoutSeconds\<close>; beyond
  that the product wraps around.\<close>

lemma timeout_of_in_range:
  assumes "TimeoutSeconds opts = Some seconds"
    and "0 \<le> sint seconds" and "sint seconds \<le> 9223372036"
  shows "sint (timeout_of opts) = sint seconds * 1000000000"
proof -
  have "sint (seconds * 1000000000) = signed_take_bit 63 (sint seconds * 1000000000)"
    by (simp add: sint_word_ariths)
  also have "\<dots> = sint seconds * 1000000000"
    using assms(2,3) by (intro signed_take_bit_int_eq_self) auto
  finally show ?thesis
    using assms(1) by (simp add: timeout_of_def Second_def)
qed

lemma timeout_of_wraps:
  "sint (timeout_of (sample_options\<lparr>TimeoutSeconds := Some 9223372037\<rparr>)) =
     - 9223372036709551616"
  by (simp add: timeout_of_def Second_def)

lemma timeout_of_nil: "TimeoutSeconds opts = None \<Longrightarrow> timeout_of opts = 0"
  by (simp add: timeout_of_def)

end
